theory Spec2Isabelle
  imports Complex_Main
begin

section \<open>Strings and POSIX paths\<close>

text \<open>
  Paths, file names and extensions are Python \<open>str\<close> values; they are modelled as
  \<open>string\<close> (a list of characters). \<open>str.lower\<close> is modelled on the ASCII letters,
  which is all that the comparisons with \<open>.pdf\<close>, \<open>.docx\<close> and \<open>.xlsx\<close> can observe.
  The functions of \<open>os.path\<close> are the POSIX ones (\<open>posixpath\<close>).
\<close>

definition lower_char :: "char \<Rightarrow> char" where
  "lower_char c =
     (case map_of (zip ''ABCDEFGHIJKLMNOPQRSTUVWXYZ'' ''abcdefghijklmnopqrstuvwxyz'') c of
        Some d \<Rightarrow> d
      | None \<Rightarrow> c)"

definition lower :: "string \<Rightarrow> string" where
  "lower s = map lower_char s"

definition startswith :: "string \<Rightarrow> string \<Rightarrow> bool" where
  "startswith s p = (take (length p) s = p)"

definition endswith :: "string \<Rightarrow> string \<Rightarrow> bool" where
  "endswith s p = (drop (length s - length p) s = p)"

text \<open>\<open>str.rfind\<close> for a single character: the highest index, or \<open>-1\<close>.\<close>

fun rfind :: "string \<Rightarrow> char \<Rightarrow> int" where
  "rfind [] c = - 1"
| "rfind (x # xs) c =
     (let r = rfind xs c in if 0 \<le> r then r + 1 else if x = c then 0 else - 1)"

text \<open>The slice \<open>p[i:j]\<close> for indices that are not negative.\<close>

definition slice :: "string \<Rightarrow> int \<Rightarrow> int \<Rightarrow> string" where
  "slice p i j = take (nat j - nat i) (drop (nat i) p)"

text \<open>
  The loop of \<open>genericpath._splitext\<close> that skips the leading dots of the file name: it
  runs over \<open>p[sepIndex+1:dotIndex]\<close> and splits at the first character that is not a dot.
\<close>

fun only_dots :: "string \<Rightarrow> bool" where
  "only_dots [] = True"
| "only_dots (c # cs) = (if c \<noteq> CHR ''.'' then False else only_dots cs)"

definition splitext :: "string \<Rightarrow> string \<times> string" where
  "splitext p =
     (let sepIndex = rfind p CHR ''/'';
          dotIndex = rfind p CHR ''.''
      in if sepIndex < dotIndex \<and> \<not> only_dots (slice p (sepIndex + 1) dotIndex)
         then (take (nat dotIndex) p, drop (nat dotIndex) p)
         else (p, []))"

definition basename :: "string \<Rightarrow> string" where
  "basename p = drop (nat (rfind p CHR ''/'' + 1)) p"

text \<open>\<open>os.path.join\<close> with two arguments.\<close>

definition join :: "string \<Rightarrow> string \<Rightarrow> string" where
  "join a b =
     (if startswith b ''/'' then b
      else if a = [] \<or> endswith a ''/'' then a @ b
      else a @ ''/'' @ b)"

text \<open>
  \<open>str.replace(old, new)\<close>: the occurrences of \<open>old\<close> are found from left to right and
  do not overlap. The source only calls it with \<open>old = ".tmp"\<close>; for an empty \<open>old\<close>
  (where Python inserts \<open>new\<close> between the characters) the model returns the string as it is.
\<close>

function replace :: "string \<Rightarrow> string \<Rightarrow> string \<Rightarrow> string" where
  "replace [] old new = []"
| "replace (c # cs) old new =
     (if old \<noteq> [] \<and> startswith (c # cs) old
      then new @ replace (drop (length old) (c # cs)) old new
      else c # replace cs old new)"
  by pat_completeness auto
termination
  by (relation "measure (\<lambda>(s, old, new). length s)") auto

text \<open>
  \<open>os.path.relpath(path, start)\<close> on the components of the two paths. \<open>abspath\<close> is taken to
  drop the empty and the \<open>.\<close> components only: both paths are relative to the same working
  directory (or both absolute) and have no \<open>..\<close> component, as holds for a \<open>root\<close> that
  \<open>os.walk\<close> builds from \<open>dir_path\<close>.
\<close>

fun split_sep :: "string \<Rightarrow> string list" where
  "split_sep [] = [[]]"
| "split_sep (c # cs) =
     (if c = CHR ''/'' then [] # split_sep cs
      else (case split_sep cs of
              [] \<Rightarrow> [[c]]
            | w # ws \<Rightarrow> (c # w) # ws))"

definition components :: "string \<Rightarrow> string list" where
  "components p = filter (\<lambda>x. x \<noteq> [] \<and> x \<noteq> ''.'') (split_sep p)"

fun commonprefix :: "string list \<Rightarrow> string list \<Rightarrow> string list" where
  "commonprefix (x # xs) (y # ys) = (if x = y then x # commonprefix xs ys else [])"
| "commonprefix xs ys = []"

fun join_all :: "string list \<Rightarrow> string" where
  "join_all [] = []"
| "join_all [x] = x"
| "join_all (x # y # ys) = join x (join_all (y # ys))"

definition relpath :: "string \<Rightarrow> string \<Rightarrow> string" where
  "relpath path start =
     (let start_list = components start;
          path_list = components path;
          i = length (commonprefix start_list path_list);
          rel_list = replicate (length start_list - i) ''..'' @ drop i path_list
      in if rel_list = [] then ''.'' else join_all rel_list)"

text \<open>
  Python truthiness of an optional string: \<open>None\<close> and the empty string both count as
  absent in \<open>if output_dir:\<close>, \<open>if args.directory:\<close> and \<open>elif args.path:\<close>.
\<close>

fun truthy :: "string option \<Rightarrow> string option" where
  "truthy None = None"
| "truthy (Some s) = (if s = [] then None else Some s)"

section \<open>Documents\<close>

subsection \<open>PDF pages and the drawing canvas\<close>

text \<open>
  A page is its media box and the list of the marks painted on it, bottom first. The
  coordinates are real numbers: the source computes them in binary floating point, and the
  model keeps the arithmetic exact. A text mark records where its anchor lands on the page,
  the rotation in degrees of the coordinate system it was drawn in, the fill colour with its
  alpha and the font.
\<close>

type_synonym colour = "real \<times> real \<times> real \<times> real"

datatype mark =
    Opaque string
  | Centred_text "real \<times> real" real string colour "string \<times> nat"

record page =
  mediabox :: "real \<times> real"
  contents :: "mark list"

text \<open>
  The canvas of the rendering library, as far as the source drives it: the state that
  \<open>saveState\<close> pushes and \<open>restoreState\<close> pops holds the coordinate system (where its origin
  lies on the page and how far it is rotated), the fill colour and the font.
\<close>

record gstate =
  origin :: "real \<times> real"
  rotation :: real
  fill :: colour
  font :: "string \<times> nat"

record canvas =
  pagesize :: "real \<times> real"
  gs :: gstate
  stack :: "gstate list"
  drawn :: "mark list"

definition to_page :: "real \<Rightarrow> real \<times> real \<Rightarrow> real \<times> real" where
  "to_page deg v =
     (let a = deg * pi / 180
      in (fst v * cos a - snd v * sin a, fst v * sin a + snd v * cos a))"

definition Canvas :: "real \<times> real \<Rightarrow> canvas" where
  "Canvas sz =
     \<lparr>pagesize = sz,
      gs = \<lparr>origin = (0, 0), rotation = 0, fill = (0, 0, 0, 1), font = (''Helvetica'', 12)\<rparr>,
      stack = [],
      drawn = []\<rparr>"

definition setFillColorRGB :: "real \<Rightarrow> real \<Rightarrow> real \<Rightarrow> real \<Rightarrow> canvas \<Rightarrow> canvas" where
  "setFillColorRGB r g b alpha c = c\<lparr>gs := (gs c)\<lparr>fill := (r, g, b, alpha)\<rparr>\<rparr>"

definition setFont :: "string \<Rightarrow> nat \<Rightarrow> canvas \<Rightarrow> canvas" where
  "setFont name sz c = c\<lparr>gs := (gs c)\<lparr>font := (name, sz)\<rparr>\<rparr>"

definition saveState :: "canvas \<Rightarrow> canvas" where
  "saveState c = c\<lparr>stack := gs c # stack c\<rparr>"

text \<open>The source calls \<open>restoreState\<close> only after a \<open>saveState\<close>; on an empty stack the
  model leaves the canvas as it is.\<close>

definition restoreState :: "canvas \<Rightarrow> canvas" where
  "restoreState c =
     (case stack c of
        [] \<Rightarrow> c
      | g # rest \<Rightarrow> c\<lparr>gs := g, stack := rest\<rparr>)"

definition translate :: "real \<Rightarrow> real \<Rightarrow> canvas \<Rightarrow> canvas" where
  "translate dx dy c =
     (let g = gs c;
          d = to_page (rotation g) (dx, dy)
      in c\<lparr>gs := g\<lparr>origin := (fst (origin g) + fst d, snd (origin g) + snd d)\<rparr>\<rparr>)"

definition rotate_canvas :: "real \<Rightarrow> canvas \<Rightarrow> canvas" where
  "rotate_canvas theta c = c\<lparr>gs := (gs c)\<lparr>rotation := rotation (gs c) + theta\<rparr>\<rparr>"

definition drawCentredString :: "real \<Rightarrow> real \<Rightarrow> string \<Rightarrow> canvas \<Rightarrow> canvas" where
  "drawCentredString x y txt c =
     (let g = gs c;
          d = to_page (rotation g) (x, y)
      in c\<lparr>drawn := drawn c @
           [Centred_text (fst (origin g) + fst d, snd (origin g) + snd d) (rotation g) txt
              (fill g) (font g)]\<rparr>)"

text \<open>\<open>c.save()\<close> closes the single page; \<open>PdfReader(packet)\<close> reads it back.\<close>

definition save_canvas :: "canvas \<Rightarrow> page list" where
  "save_canvas c = [\<lparr>mediabox = pagesize c, contents = drawn c\<rparr>]"

text \<open>\<open>page.merge_page(page2)\<close> paints the content of \<open>page2\<close> over the page and keeps the
  page's own media box.\<close>

definition merge_page :: "page \<Rightarrow> page \<Rightarrow> page" where
  "merge_page pg page2 = pg\<lparr>contents := contents pg @ contents page2\<rparr>"

subsection \<open>Word documents\<close>

text \<open>
  A document is its body, its header parts and its sections. A paragraph is a list of runs
  and an alignment. A header part holds the paragraphs of one header. A section refers to
  the header part that defines its header by the index of the part, or has no header
  definition of its own: then its header is linked to the previous section's, and the
  document library resolves it to the header of the nearest earlier section that has a
  definition. Several sections may so use one header part. The footer of a section, which
  the source never touches, is kept as a list of paragraphs.
\<close>

record run =
  run_text :: string
  font_size :: "nat option"
  font_color :: "(nat \<times> nat \<times> nat) option"

record docx_paragraph =
  runs :: "run list"
  alignment :: "nat option"

record docx_section =
  header_ref :: "nat option"
  footer :: "docx_paragraph list"

record document =
  body :: "docx_paragraph list"
  header_parts :: "docx_paragraph list list"
  sections :: "docx_section list"

subsection \<open>Excel workbooks\<close>

record header_part =
  hf_text :: "string option"
  hf_size :: "nat option"
  hf_color :: "string option"

record worksheet =
  cells :: "(nat \<times> nat \<times> string) list"
  oddHeader_center :: header_part
  evenHeader_center :: header_part

record workbook =
  worksheets :: "worksheet list"

section \<open>The file system and the output\<close>

text \<open>
  What a file holds: a document that the library of its format can read, or anything else
  (a corrupt or encrypted file, a text file).
\<close>

datatype content =
    Pdf "page list"
  | Docx document
  | Xlsx workbook
  | Other string

datatype handler = PDF | DOCX | XLSX

text \<open>
  The messages the source prints (their texts are Chinese; the model keeps which message it
  is and its parameters). The trace holds, in order, every message printed, every call of a
  format handler with its input and output path, and every call of \<open>os.makedirs\<close>,
  \<open>os.rename\<close> and \<open>os.remove\<close> that returned.
\<close>

datatype message =
    Pdf_needs_install
  | Pdf_failed
  | Docx_needs_install
  | Docx_failed
  | Xlsx_needs_install
  | Xlsx_failed
  | Unsupported_type string
  | Processing string
  | File_done
  | File_failed
  | Watermark_done
  | Watermark_failed
  | Path_missing string
  | Print_help
  | Summary nat nat

datatype event =
    Print message
  | Call handler string string
  | Makedirs string
  | Rename string string
  | Remove string

text \<open>
  The state of the world: the regular files by path, the directories, the paths that cannot
  be opened for writing, and the trace of events so far. Paths are compared as strings.
\<close>

record os_state =
  files :: "string \<rightharpoonup> content"
  dirs :: "string set"
  unwritable :: "string set"
  trace :: "event list"

datatype error =
    FileNotFoundError string
  | FileExistsError string
  | NotADirectoryError string

definition emit :: "event \<Rightarrow> os_state \<Rightarrow> os_state" where
  "emit e st = st\<lparr>trace := trace st @ [e]\<rparr>"

text \<open>\<open>open(path, 'wb')\<close> followed by a complete write, or the \<open>save\<close> of a document: it
  raises (\<open>None\<close>) on a path that cannot be written. A write that fails half way is not
  modelled.\<close>

definition write_file :: "string \<Rightarrow> content \<Rightarrow> os_state \<Rightarrow> os_state option" where
  "write_file p c st =
     (if p \<in> unwritable st then None else Some (st\<lparr>files := (files st)(p \<mapsto> c)\<rparr>))"

text \<open>\<open>os.rename\<close> on regular files (POSIX: an existing destination is replaced).\<close>

definition os_rename :: "string \<Rightarrow> string \<Rightarrow> os_state \<Rightarrow> error + os_state" where
  "os_rename src dst st =
     (case files st src of
        None \<Rightarrow> Inl (FileNotFoundError src)
      | Some c \<Rightarrow>
          Inr (emit (Rename src dst) (st\<lparr>files := ((files st)(src := None))(dst \<mapsto> c)\<rparr>)))"

definition os_remove :: "string \<Rightarrow> os_state \<Rightarrow> error + os_state" where
  "os_remove p st =
     (case files st p of
        None \<Rightarrow> Inl (FileNotFoundError p)
      | Some c \<Rightarrow> Inr (emit (Remove p) (st\<lparr>files := (files st)(p := None)\<rparr>)))"

text \<open>The directories above a path: its prefixes that end before a separator.\<close>

fun parents_from :: "string \<Rightarrow> string \<Rightarrow> string list" where
  "parents_from pre [] = []"
| "parents_from pre (c # cs) =
     (if c = CHR ''/'' \<and> pre \<noteq> [] then pre # parents_from (pre @ [c]) cs
      else parents_from (pre @ [c]) cs)"

definition parents :: "string \<Rightarrow> string list" where
  "parents d = parents_from [] d"

text \<open>
  \<open>os.makedirs(d, exist_ok=True)\<close>: it creates the directory and the missing ones above it,
  and raises when a regular file stands at the path or above it.
\<close>

definition os_makedirs :: "string \<Rightarrow> os_state \<Rightarrow> error + os_state" where
  "os_makedirs d st =
     (if list_ex (\<lambda>a. files st a \<noteq> None) (parents d) then Inl (NotADirectoryError d)
      else if files st d \<noteq> None then Inl (FileExistsError d)
      else Inr (emit (Makedirs d) (st\<lparr>dirs := dirs st \<union> set (parents d) \<union> {d}\<rparr>)))"

definition path_exists :: "os_state \<Rightarrow> string \<Rightarrow> bool" where
  "path_exists st p = (files st p \<noteq> None \<or> p \<in> dirs st)"

definition isfile :: "os_state \<Rightarrow> string \<Rightarrow> bool" where
  "isfile st p = (files st p \<noteq> None)"

section \<open>The format handlers\<close>

text \<open>
  The module's flags: which libraries were imported, and whether a font was registered.
  Every handler catches every exception and returns a boolean. In the model a handler fails
  when its library is missing, when the input file is missing or is not a document of its
  format, and when the output path cannot be written; the library calls on a document that
  was read are taken not to raise. The two lines that a handler prints when its library is
  missing are one message.
\<close>

record env =
  PDF_SUPPORT :: bool
  DOCX_SUPPORT :: bool
  XLSX_SUPPORT :: bool
  FONT_REGISTERED :: bool

definition create_watermark_pdf :: "env \<Rightarrow> string \<Rightarrow> real \<Rightarrow> real \<Rightarrow> page list" where
  "create_watermark_pdf ev txt page_width page_height =
     (let c = Canvas (page_width, page_height);
          c = setFillColorRGB 0.7 0.7 0.7 0.3 c;
          c = (if FONT_REGISTERED ev then setFont ''ChineseFont'' 30 c
               else setFont ''Helvetica'' 30 c);
          c = saveState c;
          c = translate (page_width / 2) (page_height / 2) c;
          c = rotate_canvas 45 c;
          c = drawCentredString 0 0 txt c;
          c = restoreState c;
          c = saveState c;
          c = translate (page_width * 0.25) (page_height * 0.75) c;
          c = rotate_canvas 45 c;
          c = drawCentredString 0 0 txt c;
          c = restoreState c;
          c = saveState c;
          c = translate (page_width * 0.75) (page_height * 0.25) c;
          c = rotate_canvas 45 c;
          c = drawCentredString 0 0 txt c;
          c = restoreState c
      in save_canvas c)"

text \<open>The body of the loop over \<open>reader.pages\<close>; \<open>watermark.pages[0]\<close> raises on an empty
  list, which the handler's \<open>except\<close> catches (\<open>None\<close>).\<close>

definition watermark_page :: "env \<Rightarrow> string \<Rightarrow> page \<Rightarrow> page option" where
  "watermark_page ev txt pg =
     (let page_width = fst (mediabox pg);
          page_height = snd (mediabox pg);
          watermark = create_watermark_pdf ev txt page_width page_height
      in case watermark of
           [] \<Rightarrow> None
         | w # _ \<Rightarrow> Some (merge_page pg w))"

fun watermark_pages :: "env \<Rightarrow> string \<Rightarrow> page list \<Rightarrow> page list option" where
  "watermark_pages ev txt [] = Some []"
| "watermark_pages ev txt (pg # pgs) =
     (case watermark_page ev txt pg of
        None \<Rightarrow> None
      | Some pg' \<Rightarrow>
          (case watermark_pages ev txt pgs of
             None \<Rightarrow> None
           | Some pgs' \<Rightarrow> Some (pg' # pgs')))"

definition add_watermark_pdf ::
  "env \<Rightarrow> string \<Rightarrow> string \<Rightarrow> string \<Rightarrow> os_state \<Rightarrow> bool \<times> os_state" where
  "add_watermark_pdf ev input_path output_path txt st0 =
     (let st = emit (Call PDF input_path output_path) st0
      in if \<not> PDF_SUPPORT ev then (False, emit (Print Pdf_needs_install) st)
         else (case files st input_path of
                 Some (Pdf pages) \<Rightarrow>
                   (case watermark_pages ev txt pages of
                      None \<Rightarrow> (False, emit (Print Pdf_failed) st)
                    | Some writer \<Rightarrow>
                        (case write_file output_path (Pdf writer) st of
                           None \<Rightarrow> (False, emit (Print Pdf_failed) st)
                         | Some st' \<Rightarrow> (True, st')))
               | _ \<Rightarrow> (False, emit (Print Pdf_failed) st)))"

text \<open>
  \<open>section.header\<close> of the document library, for the section with index \<open>n\<close>: reading
  its paragraphs goes to the header part of the section, or of the nearest earlier section
  that has one; when none has, a new header part with one empty paragraph is added to the
  document and the first section is made to refer to it.
\<close>

definition add_definition :: "document \<Rightarrow> nat \<times> document" where
  "add_definition doc =
     (length (header_parts doc),
      doc\<lparr>header_parts := header_parts doc @ [[\<lparr>runs = [], alignment = None\<rparr>]],
          sections := (sections doc)
            [0 := (sections doc ! 0)\<lparr>header_ref := Some (length (header_parts doc))\<rparr>]\<rparr>)"

fun get_or_add_definition :: "nat \<Rightarrow> document \<Rightarrow> nat \<times> document" where
  "get_or_add_definition 0 doc =
     (case header_ref (sections doc ! 0) of
        Some r \<Rightarrow> (r, doc)
      | None \<Rightarrow> add_definition doc)"
| "get_or_add_definition (Suc m) doc =
     (case header_ref (sections doc ! Suc m) of
        Some r \<Rightarrow> (r, doc)
      | None \<Rightarrow> get_or_add_definition m doc)"

text \<open>
  The body of the loop over \<open>doc.sections\<close>, for the section with index \<open>n\<close> (below the
  number of sections): the first paragraph of its header, or a new one added to a header
  that has none, gets the run and the alignment. A reference to a header part that the
  document does not hold raises in the library, and the handler's \<open>except\<close> catches it
  (\<open>None\<close>).
\<close>

definition watermark_section :: "string \<Rightarrow> nat \<Rightarrow> document \<Rightarrow> document option" where
  "watermark_section txt n doc =
     (let (r, doc1) = get_or_add_definition n doc
      in if length (header_parts doc1) \<le> r then None
         else
           (let paragraphs = (if header_parts doc1 ! r \<noteq> [] then header_parts doc1 ! r
                              else header_parts doc1 ! r @ [\<lparr>runs = [], alignment = None\<rparr>]);
                new_run = \<lparr>run_text = txt, font_size = Some 36,
                           font_color = Some (200, 200, 200)\<rparr>
            in case paragraphs of
                 [] \<Rightarrow> None
               | p # rest \<Rightarrow>
                   Some (doc1\<lparr>header_parts := (header_parts doc1)
                           [r := p\<lparr>runs := runs p @ [new_run], alignment := Some 1\<rparr> # rest]\<rparr>)))"

fun watermark_sections :: "string \<Rightarrow> nat list \<Rightarrow> document \<Rightarrow> document option" where
  "watermark_sections txt [] doc = Some doc"
| "watermark_sections txt (n # ns) doc =
     (case watermark_section txt n doc of
        None \<Rightarrow> None
      | Some doc1 \<Rightarrow> watermark_sections txt ns doc1)"

definition watermark_document :: "string \<Rightarrow> document \<Rightarrow> document option" where
  "watermark_document txt doc = watermark_sections txt [0..<length (sections doc)] doc"

definition add_watermark_docx ::
  "env \<Rightarrow> string \<Rightarrow> string \<Rightarrow> string \<Rightarrow> os_state \<Rightarrow> bool \<times> os_state" where
  "add_watermark_docx ev input_path output_path txt st0 =
     (let st = emit (Call DOCX input_path output_path) st0
      in if \<not> DOCX_SUPPORT ev then (False, emit (Print Docx_needs_install) st)
         else (case files st input_path of
                 Some (Docx doc) \<Rightarrow>
                   (case watermark_document txt doc of
                      None \<Rightarrow> (False, emit (Print Docx_failed) st)
                    | Some doc' \<Rightarrow>
                        (case write_file output_path (Docx doc') st of
                           None \<Rightarrow> (False, emit (Print Docx_failed) st)
                         | Some st' \<Rightarrow> (True, st')))
               | _ \<Rightarrow> (False, emit (Print Docx_failed) st)))"

definition watermark_sheet :: "string \<Rightarrow> worksheet \<Rightarrow> worksheet" where
  "watermark_sheet txt sheet =
     sheet\<lparr>oddHeader_center :=
              \<lparr>hf_text = Some txt, hf_size = Some 24, hf_color = Some ''C0C0C0''\<rparr>,
           evenHeader_center :=
              \<lparr>hf_text = Some txt, hf_size = Some 24, hf_color = Some ''C0C0C0''\<rparr>\<rparr>"

text \<open>
  \<open>load_workbook\<close> of the workbook library looks at the name of the file before it opens
  it, and raises for a name whose extension, in lower case, is not one of the four below;
  the handler's \<open>except\<close> catches this as any other exception.
\<close>

definition SUPPORTED_FORMATS :: "string set" where
  "SUPPORTED_FORMATS = {''.xlsx'', ''.xlsm'', ''.xltx'', ''.xltm''}"

definition add_watermark_xlsx ::
  "env \<Rightarrow> string \<Rightarrow> string \<Rightarrow> string \<Rightarrow> os_state \<Rightarrow> bool \<times> os_state" where
  "add_watermark_xlsx ev input_path output_path txt st0 =
     (let st = emit (Call XLSX input_path output_path) st0
      in if \<not> XLSX_SUPPORT ev then (False, emit (Print Xlsx_needs_install) st)
         else if lower (snd (splitext input_path)) \<notin> SUPPORTED_FORMATS then
           (False, emit (Print Xlsx_failed) st)
         else (case files st input_path of
                 Some (Xlsx wb) \<Rightarrow>
                   (case write_file output_path
                           (Xlsx (wb\<lparr>worksheets := map (watermark_sheet txt) (worksheets wb)\<rparr>)) st of
                      None \<Rightarrow> (False, emit (Print Xlsx_failed) st)
                    | Some st' \<Rightarrow> (True, st'))
               | _ \<Rightarrow> (False, emit (Print Xlsx_failed) st)))"

section \<open>The file processor\<close>

text \<open>
  \<open>process_file\<close> returns \<open>Inr (success, state)\<close>, or \<open>Inl\<close> the exception that
  \<open>os.makedirs\<close>, \<open>os.rename\<close> or \<open>os.remove\<close> raised: the function has no \<open>try\<close>.
  The handlers catch their own exceptions and return a boolean.
\<close>

definition process_file ::
  "env \<Rightarrow> string \<Rightarrow> string \<Rightarrow> string option \<Rightarrow> bool \<Rightarrow> os_state
     \<Rightarrow> error + bool \<times> os_state" where
  "process_file ev file_path0 txt output_dir overwrite st0 =
     (let ext = lower (snd (splitext file_path0));
          resolved =
            (case truthy output_dir of
               Some d \<Rightarrow>
                 (case os_makedirs d st0 of
                    Inl e \<Rightarrow> Inl e
                  | Inr st \<Rightarrow> Inr (file_path0, join d (basename file_path0), st))
             | None \<Rightarrow>
                 if overwrite then
                   (let output_path = file_path0;
                        temp_path = file_path0 @ ''.tmp''
                    in case os_rename file_path0 temp_path st0 of
                         Inl e \<Rightarrow> Inl e
                       | Inr st \<Rightarrow> Inr (temp_path, output_path, st))
                 else
                   (let (base, extension) = splitext file_path0
                    in Inr (file_path0, base @ ''_watermarked'' @ extension, st0)))
      in case resolved of
           Inl e \<Rightarrow> Inl e
         | Inr (file_path, output_path, st) \<Rightarrow>
             (let handled =
                    (if ext = ''.pdf'' then
                       Some (add_watermark_pdf ev file_path output_path txt st)
                     else if ext = ''.docx'' then
                       Some (add_watermark_docx ev file_path output_path txt st)
                     else if ext = ''.xlsx'' then
                       Some (add_watermark_xlsx ev file_path output_path txt st)
                     else None)
              in case handled of
                   None \<Rightarrow> Inr (False, emit (Print (Unsupported_type ext)) st)
                 | Some (ok, st1) \<Rightarrow>
                     if overwrite \<and> truthy output_dir = None then
                       (if ok then
                          (case os_remove file_path st1 of
                             Inl e \<Rightarrow> Inl e
                           | Inr st2 \<Rightarrow> Inr (ok, st2))
                        else
                          (case os_rename file_path (replace output_path ''.tmp'' []) st1 of
                             Inl e \<Rightarrow> Inl e
                           | Inr st2 \<Rightarrow> Inr (ok, st2)))
                     else Inr (ok, st1)))"

section \<open>The directory walker\<close>

text \<open>
  What \<open>os.walk\<close> finds under a directory: its subdirectories by name, each with what is
  found under it, and the names of its files. The walk lists a directory before it descends,
  and the files are processed against the file system as it is when their turn comes, so a
  listed file may be gone by then.
\<close>

datatype dtree = Dir "(string \<times> dtree) list" "string list"

record results =
  success :: nat
  failed :: nat

definition supported_exts :: "string set" where
  "supported_exts = {''.pdf'', ''.docx'', ''.xlsx''}"

text \<open>The loop \<open>for f in files\<close> of one directory \<open>root\<close>.\<close>

fun process_files ::
  "env \<Rightarrow> string \<Rightarrow> string \<Rightarrow> string option \<Rightarrow> bool \<Rightarrow> string \<Rightarrow> string list
     \<Rightarrow> results \<times> os_state \<Rightarrow> error + results \<times> os_state" where
  "process_files ev dir_path txt output_dir overwrite root_dir [] acc = Inr acc"
| "process_files ev dir_path txt output_dir overwrite root_dir (f # fs) (res, st) =
     (if startswith f ''~$'' \<or> startswith f ''.'' then
        process_files ev dir_path txt output_dir overwrite root_dir fs (res, st)
      else if lower (snd (splitext f)) \<notin> supported_exts then
        process_files ev dir_path txt output_dir overwrite root_dir fs (res, st)
      else
        (let file_path = join root_dir f;
             file_output_dir =
               (case truthy output_dir of
                  Some d \<Rightarrow> Some (join d (relpath root_dir dir_path))
                | None \<Rightarrow> None)
         in case process_file ev file_path txt file_output_dir overwrite
                   (emit (Print (Processing f)) st) of
              Inl e \<Rightarrow> Inl e
            | Inr (ok, st1) \<Rightarrow>
                if ok then
                  process_files ev dir_path txt output_dir overwrite root_dir fs
                    (res\<lparr>success := success res + 1\<rparr>, emit (Print File_done) st1)
                else
                  process_files ev dir_path txt output_dir overwrite root_dir fs
                    (res\<lparr>failed := failed res + 1\<rparr>, emit (Print File_failed) st1)))"

text \<open>
  The loop over \<open>os.walk(dir_path)\<close>, top down: the files of \<open>root\<close>, then the
  subdirectories that the filter on \<open>dirs[:]\<close> keeps, each walked as
  \<open>os.path.join(root, d)\<close>.
\<close>

fun walk ::
  "env \<Rightarrow> string \<Rightarrow> string \<Rightarrow> string option \<Rightarrow> bool \<Rightarrow> string \<Rightarrow> dtree
     \<Rightarrow> results \<times> os_state \<Rightarrow> error + results \<times> os_state"
and walk_dirs ::
  "env \<Rightarrow> string \<Rightarrow> string \<Rightarrow> string option \<Rightarrow> bool \<Rightarrow> string \<Rightarrow> (string \<times> dtree) list
     \<Rightarrow> results \<times> os_state \<Rightarrow> error + results \<times> os_state" where
  "walk ev dir_path txt output_dir overwrite root_dir (Dir ds fs) acc =
     (case process_files ev dir_path txt output_dir overwrite root_dir fs acc of
        Inl e \<Rightarrow> Inl e
      | Inr acc1 \<Rightarrow> walk_dirs ev dir_path txt output_dir overwrite root_dir ds acc1)"
| "walk_dirs ev dir_path txt output_dir overwrite root_dir [] acc = Inr acc"
| "walk_dirs ev dir_path txt output_dir overwrite root_dir ((d, t) # rest) acc =
     (if startswith d ''.'' then
        walk_dirs ev dir_path txt output_dir overwrite root_dir rest acc
      else
        (case walk ev dir_path txt output_dir overwrite (join root_dir d) t acc of
           Inl e \<Rightarrow> Inl e
         | Inr acc1 \<Rightarrow> walk_dirs ev dir_path txt output_dir overwrite root_dir rest acc1))"

definition process_directory ::
  "env \<Rightarrow> string \<Rightarrow> string \<Rightarrow> string option \<Rightarrow> bool \<Rightarrow> dtree \<Rightarrow> os_state
     \<Rightarrow> error + results \<times> os_state" where
  "process_directory ev dir_path txt output_dir overwrite tree st =
     walk ev dir_path txt output_dir overwrite dir_path tree
       (\<lparr>success = 0, failed = 0\<rparr>, st)"

section \<open>The command line\<close>

text \<open>
  The parsed arguments (\<open>-t\<close> is required, so a parse that succeeds has a text). \<open>main\<close>
  returns \<open>Inr (status, state)\<close> where the source calls \<open>sys.exit\<close> or reaches its end
  (status 0), and \<open>Inl\<close> the exception that escapes it. \<open>tree\<close> is what \<open>os.walk\<close>
  finds under the target.
\<close>

record args =
  arg_path :: "string option"
  arg_text :: string
  arg_directory :: "string option"
  arg_output :: "string option"
  arg_overwrite :: bool

definition resolve_target :: "args \<Rightarrow> string option" where
  "resolve_target a =
     (case truthy (arg_directory a) of
        Some d \<Rightarrow> Some d
      | None \<Rightarrow> truthy (arg_path a))"

definition main :: "env \<Rightarrow> args \<Rightarrow> dtree \<Rightarrow> os_state \<Rightarrow> error + nat \<times> os_state" where
  "main ev a tree st =
     (case resolve_target a of
        None \<Rightarrow> Inr (1, emit (Print Print_help) st)
      | Some target \<Rightarrow>
          if \<not> path_exists st target then Inr (1, emit (Print (Path_missing target)) st)
          else if isfile st target then
            (case process_file ev target (arg_text a) (arg_output a) (arg_overwrite a) st of
               Inl e \<Rightarrow> Inl e
             | Inr (ok, st1) \<Rightarrow>
                 if ok then Inr (0, emit (Print Watermark_done) st1)
                 else Inr (1, emit (Print Watermark_failed) st1))
          else
            (case process_directory ev target (arg_text a) (arg_output a) (arg_overwrite a)
                    tree st of
               Inl e \<Rightarrow> Inl e
             | Inr (res, st1) \<Rightarrow>
                 Inr (0, emit (Print (Summary (success res) (failed res))) st1)))"

text \<open>The exit status of the process: an exception that escapes \<open>main\<close> ends the
  interpreter with a traceback and status 1.\<close>

definition exit_status :: "error + nat \<times> os_state \<Rightarrow> nat" where
  "exit_status r = (case r of Inl e \<Rightarrow> 1 | Inr (code, st) \<Rightarrow> code)"

section \<open>Notions used in the statements\<close>

text \<open>The handler that an extension selects, and the call of a handler by its name.\<close>

definition handler_for :: "string \<Rightarrow> handler option" where
  "handler_for ext =
     (if ext = ''.pdf'' then Some PDF
      else if ext = ''.docx'' then Some DOCX
      else if ext = ''.xlsx'' then Some XLSX
      else None)"

fun run_handler ::
  "handler \<Rightarrow> env \<Rightarrow> string \<Rightarrow> string \<Rightarrow> string \<Rightarrow> os_state \<Rightarrow> bool \<times> os_state" where
  "run_handler PDF = add_watermark_pdf"
| "run_handler DOCX = add_watermark_docx"
| "run_handler XLSX = add_watermark_xlsx"


text \<open>The trace without its messages: the handler calls and the file-system calls.\<close>

fun is_print :: "event \<Rightarrow> bool" where
  "is_print (Print m) = True"
| "is_print e = False"

definition actions :: "event list \<Rightarrow> event list" where
  "actions tr = filter (\<lambda>e. \<not> is_print e) tr"

text \<open>The file names that the walker announced (its message before each
  \<open>process_file\<close>).\<close>

fun processed :: "event list \<Rightarrow> string list" where
  "processed [] = []"
| "processed (Print (Processing f) # tr) = f # processed tr"
| "processed (e # tr) = processed tr"


text \<open>
  The files that a walk has to process, in the words of the specification: the subtrees of
  the directories whose name starts with a dot are pruned; in a directory, a file is skipped
  when its name starts with \<open>~$\<close> or with a dot, and ignored when its extension, in lower
  case, is not one of the three supported ones.
\<close>

definition eligible :: "string \<Rightarrow> bool" where
  "eligible f =
     (\<not> startswith f ''~$'' \<and> \<not> startswith f ''.'' \<and>
      lower (snd (splitext f)) \<in> {''.pdf'', ''.docx'', ''.xlsx''})"

fun selected :: "dtree \<Rightarrow> string list"
and selected_dirs :: "(string \<times> dtree) list \<Rightarrow> string list" where
  "selected (Dir ds fs) = filter eligible fs @ selected_dirs ds"
| "selected_dirs [] = []"
| "selected_dirs ((d, t) # rest) =
     (if startswith d ''.'' then selected_dirs rest else selected t @ selected_dirs rest)"

text \<open>
  The calls of \<open>process_file\<close> that a walk has to make, in the words of the
  specification: for every selected file, in order, the name announced, the path of the
  file, and its output directory (the relative path of the file's directory under the
  given output directory, when one is given).
\<close>

fun targets :: "string \<Rightarrow> string option \<Rightarrow> string \<Rightarrow> dtree \<Rightarrow> (string \<times> string \<times> string option) list"
and targets_dirs ::
  "string \<Rightarrow> string option \<Rightarrow> string \<Rightarrow> (string \<times> dtree) list
     \<Rightarrow> (string \<times> string \<times> string option) list" where
  "targets dir_path output_dir root_dir (Dir ds fs) =
     map (\<lambda>f. (f, join root_dir f,
               case truthy output_dir of
                 None \<Rightarrow> None
               | Some d \<Rightarrow> Some (join d (relpath root_dir dir_path))))
       (filter eligible fs)
     @ targets_dirs dir_path output_dir root_dir ds"
| "targets_dirs dir_path output_dir root_dir [] = []"
| "targets_dirs dir_path output_dir root_dir ((d, t) # rest) =
     (if startswith d ''.'' then targets_dirs dir_path output_dir root_dir rest
      else targets dir_path output_dir (join root_dir d) t
           @ targets_dirs dir_path output_dir root_dir rest)"

text \<open>
  What \<open>process_file\<close> returns on these calls, made one after the other on the state that
  the previous one left, with the messages that the walker prints around each: the list
  of the booleans, or the first exception.
\<close>

fun outcomes ::
  "env \<Rightarrow> string \<Rightarrow> bool \<Rightarrow> (string \<times> string \<times> string option) list \<Rightarrow> os_state
     \<Rightarrow> error + bool list \<times> os_state" where
  "outcomes ev txt overwrite [] st = Inr ([], st)"
| "outcomes ev txt overwrite ((f, file_path, file_output_dir) # rest) st =
     (case process_file ev file_path txt file_output_dir overwrite
             (emit (Print (Processing f)) st) of
        Inl e \<Rightarrow> Inl e
      | Inr (ok, st1) \<Rightarrow>
          (case outcomes ev txt overwrite rest
                  (emit (Print (if ok then File_done else File_failed)) st1) of
             Inl e \<Rightarrow> Inl e
           | Inr (oks, st2) \<Rightarrow> Inr (ok # oks, st2)))"

text \<open>A tally with the booleans of a list counted into it: \<open>True\<close> as a success,
  \<open>False\<close> as a failure.\<close>

definition count_results :: "results \<Rightarrow> bool list \<Rightarrow> results" where
  "count_results res oks =
     \<lparr>success = success res + length (filter (\<lambda>ok. ok) oks),
      failed = failed res + length (filter (\<lambda>ok. \<not> ok) oks)\<rparr>"

text \<open>The run that the Word handler appends.\<close>

definition watermark_run :: "string \<Rightarrow> run" where
  "watermark_run txt =
     \<lparr>run_text = txt, font_size = Some 36, font_color = Some (200, 200, 200)\<rparr>"

text \<open>
  The header part that the header of the section with index \<open>n\<close> resolves to: the one the
  section refers to, or the one of the nearest earlier section that refers to one; none
  when no section up to this one has a header definition.
\<close>

fun resolved :: "docx_section list \<Rightarrow> nat \<Rightarrow> nat option" where
  "resolved secs 0 = header_ref (secs ! 0)"
| "resolved secs (Suc m) =
     (case header_ref (secs ! Suc m) of
        Some r \<Rightarrow> Some r
      | None \<Rightarrow> resolved secs m)"

text \<open>
  The paragraphs that the section with index \<open>n\<close> shows as its header; where no header
  can be inherited, they are the single empty paragraph of the header part that the
  library adds on first access.
\<close>

definition header_of :: "document \<Rightarrow> nat \<Rightarrow> docx_paragraph list" where
  "header_of doc n =
     (case resolved (sections doc) n of
        None \<Rightarrow> [\<lparr>runs = [], alignment = None\<rparr>]
      | Some r \<Rightarrow> header_parts doc ! r)"

text \<open>How many sections resolve to a given header part, and how many sections share the
  header of the section with index \<open>n\<close> (that section included).\<close>

definition uses :: "document \<Rightarrow> nat option \<Rightarrow> nat" where
  "uses doc ref =
     length (filter (\<lambda>m. resolved (sections doc) m = ref) [0..<length (sections doc)])"

definition sharing :: "document \<Rightarrow> nat \<Rightarrow> nat" where
  "sharing doc n = uses doc (resolved (sections doc) n)"

text \<open>A document whose sections refer only to header parts that it holds.\<close>

definition valid_refs :: "document \<Rightarrow> bool" where
  "valid_refs doc =
     list_all (\<lambda>s. case header_ref s of None \<Rightarrow> True | Some r \<Rightarrow> r < length (header_parts doc))
       (sections doc)"

text \<open>A document in which the header of every section resolves to a part it holds.\<close>

definition defined_doc :: "document \<Rightarrow> bool" where
  "defined_doc d = (valid_refs d \<and> (sections d \<noteq> [] \<longrightarrow> header_ref (sections d ! 0) \<noteq> None))"

text \<open>
  A header with the watermark run appended \<open>k\<close> times to its first paragraph: for
  \<open>k > 0\<close> that paragraph is centred (alignment 1), a header without a paragraph gets
  one, and the paragraphs after the first stay as they are.
\<close>

definition stamped :: "nat \<Rightarrow> string \<Rightarrow> docx_paragraph list \<Rightarrow> docx_paragraph list" where
  "stamped k wm ps =
     (if k = 0 then ps
      else (case ps of
              [] \<Rightarrow> [\<lparr>runs = replicate k (watermark_run wm), alignment = Some 1\<rparr>]
            | p # rest \<Rightarrow>
                p\<lparr>runs := runs p @ replicate k (watermark_run wm), alignment := Some 1\<rparr> # rest))"

text \<open>The runs of the first paragraph of a header (none when it has no paragraph).\<close>

definition first_runs :: "docx_paragraph list \<Rightarrow> run list" where
  "first_runs ps = (case ps of [] \<Rightarrow> [] | p # rest \<Rightarrow> runs p)"

text \<open>The three marks of a PDF overlay on a page of the given width and height.\<close>

definition overlay_marks :: "env \<Rightarrow> string \<Rightarrow> real \<Rightarrow> real \<Rightarrow> mark list" where
  "overlay_marks ev txt w h =
     (let style = (if FONT_REGISTERED ev then ''ChineseFont'' else ''Helvetica'', 30 :: nat)
      in [Centred_text (w / 2, h / 2) 45 txt (0.7, 0.7, 0.7, 0.3) style,
          Centred_text (w * 0.25, h * 0.75) 45 txt (0.7, 0.7, 0.7, 0.3) style,
          Centred_text (w * 0.75, h * 0.25) 45 txt (0.7, 0.7, 0.7, 0.3) style])"

text \<open>The module with its three libraries imported and no font registered, for the
  examples.\<close>

definition full_env :: env where
  "full_env =
     \<lparr>PDF_SUPPORT = True, DOCX_SUPPORT = True, XLSX_SUPPORT = True, FONT_REGISTERED = False\<rparr>"

section \<open>Traces\<close>

lemma actions_append: "actions (xs @ ys) = actions xs @ actions ys"
  by (simp add: actions_def)

lemma processed_append: "processed (xs @ ys) = processed xs @ processed ys"
  by (induction xs rule: processed.induct) simp_all

lemma os_rename_trace:
  "os_rename src dst st = Inr st' \<Longrightarrow> trace st' = trace st @ [Rename src dst]"
  by (auto simp: os_rename_def emit_def split: option.splits)

lemma os_remove_trace:
  "os_remove p st = Inr st' \<Longrightarrow> trace st' = trace st @ [Remove p]"
  by (auto simp: os_remove_def emit_def split: option.splits)

lemma os_makedirs_trace:
  "os_makedirs d st = Inr st' \<Longrightarrow> trace st' = trace st @ [Makedirs d]"
  by (auto simp: os_makedirs_def emit_def split: if_splits)

section \<open>What a handler call does to the state\<close>

lemmas handler_defs = add_watermark_pdf_def add_watermark_docx_def add_watermark_xlsx_def

lemma run_handler_frame:
  assumes "run_handler k ev i outp t st = (ok, st')"
  shows "dirs st' = dirs st" and "unwritable st' = unwritable st"
    and "actions (trace st') = actions (trace st) @ [Call k i outp]"
    and "processed (trace st') = processed (trace st)"
  using assms
  by (cases k; auto simp: handler_defs emit_def write_file_def Let_def actions_def
      processed_append split: if_splits option.splits content.splits)+


lemma run_handler_missing:
  assumes "files st i = None"
  shows "fst (run_handler k ev i outp t st) = False"
  using assms
  by (cases k; auto simp: handler_defs emit_def write_file_def Let_def
      split: if_splits option.splits content.splits)


section \<open>The file processor, by the handler that the extension selects\<close>

lemma process_file_handled:
  assumes "handler_for (lower (snd (splitext fp))) = Some k"
  shows "process_file ev fp t od ov st =
    (case truthy od of
       Some d \<Rightarrow>
         (case os_makedirs d st of
            Inl e \<Rightarrow> Inl e
          | Inr st1 \<Rightarrow> Inr (run_handler k ev fp (join d (basename fp)) t st1))
     | None \<Rightarrow>
         if ov then
           (case os_rename fp (fp @ ''.tmp'') st of
              Inl e \<Rightarrow> Inl e
            | Inr st1 \<Rightarrow>
                (case run_handler k ev (fp @ ''.tmp'') fp t st1 of
                   (ok, st2) \<Rightarrow>
                     if ok then
                       (case os_remove (fp @ ''.tmp'') st2 of
                          Inl e \<Rightarrow> Inl e
                        | Inr st3 \<Rightarrow> Inr (ok, st3))
                     else
                       (case os_rename (fp @ ''.tmp'') (replace fp ''.tmp'' []) st2 of
                          Inl e \<Rightarrow> Inl e
                        | Inr st3 \<Rightarrow> Inr (ok, st3))))
         else Inr (run_handler k ev fp
                     (fst (splitext fp) @ ''_watermarked'' @ snd (splitext fp)) t st))"
  using assms
  by (auto simp: process_file_def handler_for_def Let_def
      split: if_splits option.splits sum.splits prod.splits)

lemma process_file_unhandled:
  assumes "handler_for (lower (snd (splitext fp))) = None"
  shows "process_file ev fp t od ov st =
    (case truthy od of
       Some d \<Rightarrow>
         (case os_makedirs d st of
            Inl e \<Rightarrow> Inl e
          | Inr st1 \<Rightarrow>
              Inr (False, emit (Print (Unsupported_type (lower (snd (splitext fp))))) st1))
     | None \<Rightarrow>
         if ov then
           (case os_rename fp (fp @ ''.tmp'') st of
              Inl e \<Rightarrow> Inl e
            | Inr st1 \<Rightarrow>
                Inr (False, emit (Print (Unsupported_type (lower (snd (splitext fp))))) st1))
         else Inr (False, emit (Print (Unsupported_type (lower (snd (splitext fp))))) st))"
  using assms
  by (auto simp: process_file_def handler_for_def Let_def
      split: if_splits option.splits sum.splits prod.splits)

lemma process_file_processed:
  assumes "process_file ev fp t od ov st = Inr (ok, st')"
  shows "processed (trace st') = processed (trace st)"
proof (cases "handler_for (lower (snd (splitext fp)))")
  case None
  with assms show ?thesis
    by (auto simp: process_file_unhandled emit_def processed_append
        split: option.splits sum.splits if_splits
        dest!: os_rename_trace os_makedirs_trace)
next
  case (Some k)
  with assms show ?thesis
    by (auto simp: process_file_handled processed_append
        split: option.splits sum.splits if_splits prod.splits
        dest!: os_rename_trace os_makedirs_trace os_remove_trace run_handler_frame(4))
qed

text \<open>With no output directory and no overwrite, \<open>process_file\<close> calls nothing that
  raises.\<close>

lemma process_file_sibling_returns:
  assumes "truthy od = None"
  shows "\<exists>ok st'. process_file ev fp t od False st = Inr (ok, st')"
proof (cases "handler_for (lower (snd (splitext fp)))")
  case None
  with assms show ?thesis by (auto simp add: process_file_unhandled)
next
  case (Some k)
  obtain ok st' where
    "run_handler k ev fp (fst (splitext fp) @ ''_watermarked'' @ snd (splitext fp)) t st
       = (ok, st')"
    by (cases "run_handler k ev fp (fst (splitext fp) @ ''_watermarked'' @ snd (splitext fp)) t st")
  with Some assms show ?thesis by (simp add: process_file_handled)
qed

lemma process_file_sibling_missing:
  assumes "truthy od = None" and "files st fp = None"
    and "process_file ev fp t od False st = Inr (ok, st')"
  shows "\<not> ok"
proof (cases "handler_for (lower (snd (splitext fp)))")
  case None
  with assms show ?thesis by (simp add: process_file_unhandled)
next
  case (Some k)
  with assms
    run_handler_missing[of st fp k ev "fst (splitext fp) @ ''_watermarked'' @ snd (splitext fp)" t]
  show ?thesis by (auto simp add: process_file_handled)
qed

section \<open>The walk: what it announces and what it counts\<close>

lemma eligible_iff:
  "eligible f \<longleftrightarrow>
     \<not> (startswith f ''~$'' \<or> startswith f ''.'') \<and> lower (snd (splitext f)) \<in> supported_exts"
  by (simp add: eligible_def supported_exts_def)

lemma process_files_returned:
  assumes "process_files ev dp t od ov r fs (res, st) = Inr (res', st')"
  shows "processed (trace st') = processed (trace st) @ filter eligible fs
       \<and> success res' + failed res' = success res + failed res + length (filter eligible fs)"
  using assms
proof (induction fs arbitrary: res st)
  case Nil
  then show ?case by simp
next
  case (Cons f fs)
  show ?case
  proof (cases "eligible f")
    case False
    then have "process_files ev dp t od ov r (f # fs) (res, st)
               = process_files ev dp t od ov r fs (res, st)"
      by (auto simp: eligible_iff)
    with Cons.prems have "process_files ev dp t od ov r fs (res, st) = Inr (res', st')"
      by simp
    from Cons.IH[OF this] False show ?thesis
      by simp
  next
    case True
    let ?fod = "case truthy od of None \<Rightarrow> None | Some d \<Rightarrow> Some (join d (relpath r dp))"
    from True Cons.prems obtain ok st1 where
      pf: "process_file ev (join r f) t ?fod ov (emit (Print (Processing f)) st) = Inr (ok, st1)"
      by (auto simp: eligible_iff Let_def split: sum.splits)
    from process_file_processed[OF pf]
    have tr: "processed (trace st1) = processed (trace st) @ [f]"
      by (simp add: emit_def processed_append)
    show ?thesis
    proof (cases ok)
      case True
      with \<open>eligible f\<close> Cons.prems pf
      have "process_files ev dp t od ov r fs
              (res\<lparr>success := success res + 1\<rparr>, emit (Print File_done) st1) = Inr (res', st')"
        by (simp add: eligible_iff Let_def)
      from Cons.IH[OF this] tr \<open>eligible f\<close> show ?thesis
        by (simp add: emit_def processed_append)
    next
      case False
      with \<open>eligible f\<close> Cons.prems pf
      have "process_files ev dp t od ov r fs
              (res\<lparr>failed := failed res + 1\<rparr>, emit (Print File_failed) st1) = Inr (res', st')"
        by (simp add: eligible_iff Let_def)
      from Cons.IH[OF this] tr \<open>eligible f\<close> show ?thesis
        by (simp add: emit_def processed_append)
    qed
  qed
qed

lemma walk_returned:
  "walk ev dp t od ov r tree acc = Inr acc' \<Longrightarrow>
     processed (trace (snd acc')) = processed (trace (snd acc)) @ selected tree \<and>
     success (fst acc') + failed (fst acc')
       = success (fst acc) + failed (fst acc) + length (selected tree)"
  and "walk_dirs ev dp t od ov r ds acc = Inr acc' \<Longrightarrow>
     processed (trace (snd acc')) = processed (trace (snd acc)) @ selected_dirs ds \<and>
     success (fst acc') + failed (fst acc')
       = success (fst acc) + failed (fst acc) + length (selected_dirs ds)"
proof (induction ev dp t od ov r tree acc and ev dp t od ov r ds acc
    arbitrary: acc' and acc' rule: walk_walk_dirs.induct)
  case (1 e p x od ov r ds fs acc)
  from "1.prems" obtain acc1 where
    a: "process_files e p x od ov r fs acc = Inr acc1"
    and b: "walk_dirs e p x od ov r ds acc1 = Inr acc'"
    by (auto split: sum.splits)
  from a have "process_files e p x od ov r fs (fst acc, snd acc) = Inr (fst acc1, snd acc1)"
    by simp
  from process_files_returned[OF this] "1.IH"[OF a b] show ?case
    by simp
next
  case (2 e p x od ov r acc)
  then show ?case by simp
next
  case (3 e p x od ov r d t rest acc)
  show ?case
  proof (cases "startswith d ''.''")
    case True
    with 3 show ?thesis by simp
  next
    case False
    with "3.prems" obtain acc1 where
      a: "walk e p x od ov (join r d) t acc = Inr acc1"
      and b: "walk_dirs e p x od ov r rest acc1 = Inr acc'"
      by (auto split: sum.splits)
    from "3.IH"(2)[OF False a] "3.IH"(3)[OF False a b] False show ?thesis
      by simp
  qed
qed

lemma process_directory_returned:
  assumes "process_directory ev dp t od ov tree st = Inr (res, st')"
  shows "processed (trace st') = processed (trace st) @ selected tree"
    and "success res + failed res = length (selected tree)"
  using walk_returned(1)[of ev dp t od ov dp tree "(\<lparr>success = 0, failed = 0\<rparr>, st)" "(res, st')"]
    assms
  by (simp_all add: process_directory_def)

lemma process_files_sibling_returns:
  assumes "truthy od = None"
  shows "\<exists>acc'. process_files ev dp t od False r fs acc = Inr acc'"
proof (induction fs arbitrary: acc)
  case Nil
  show ?case by simp
next
  case (Cons f fs)
  obtain res st where acc: "acc = (res, st)" by (cases acc)
  obtain ok st1 where
    pf: "process_file ev (join r f) t None False (emit (Print (Processing f)) st) = Inr (ok, st1)"
    using process_file_sibling_returns[of None] by fastforce
  show ?case
    using Cons.IH assms pf by (simp add: acc Let_def)
qed

lemma walk_sibling_returns:
  "truthy od = None \<Longrightarrow> ov = False \<Longrightarrow> \<exists>acc'. walk ev dp t od ov r tree acc = Inr acc'"
  and "truthy od = None \<Longrightarrow> ov = False \<Longrightarrow> \<exists>acc'. walk_dirs ev dp t od ov r ds acc = Inr acc'"
proof (induction ev dp t od ov r tree acc and ev dp t od ov r ds acc
    rule: walk_walk_dirs.induct)
  case (1 e p x od ov r ds fs acc)
  from "1.prems" obtain acc1 where a: "process_files e p x od ov r fs acc = Inr acc1"
    using process_files_sibling_returns by blast
  from "1.IH"[OF a "1.prems"] a show ?case by simp
next
  case (2 e p x od ov r acc)
  show ?case by simp
next
  case (3 e p x od ov r d t rest acc)
  show ?case
  proof (cases "startswith d ''.''")
    case True
    with 3 show ?thesis by simp
  next
    case False
    from "3.IH"(2)[OF False "3.prems"] obtain acc1 where
      a: "walk e p x od ov (join r d) t acc = Inr acc1" by blast
    from "3.IH"(3)[OF False a "3.prems"] a False show ?thesis by simp
  qed
qed

lemma process_directory_sibling_returns:
  "\<exists>res st'. process_directory ev dp t None False tree st = Inr (res, st')"
  using walk_sibling_returns(1)[of None False ev dp t dp tree "(\<lparr>success = 0, failed = 0\<rparr>, st)"]
  by (auto simp: process_directory_def)

section \<open>The backup of the overwrite mode, and the walk\<close>

lemmas path_defs = lower_def lower_char_def splitext_def slice_def basename_def join_def
  startswith_def endswith_def

lemmas os_defs = os_rename_def os_remove_def os_makedirs_def write_file_def emit_def
  parents_def

text \<open>
  Claim C1 says that after every call of \<open>process_file\<close> with overwrite and no output
  directory, whatever it returns and whatever the extension, no file \<open>path.tmp\<close> is left.
  The code renames the file to \<open>path.tmp\<close> before it looks at the extension, and the branch
  for an unsupported extension returns at once, before the cleanup that the other branches
  reach. On a text file \<open>notes.txt\<close> the call returns \<open>False\<close>, the content stays at
  \<open>notes.txt.tmp\<close>, and \<open>notes.txt\<close> is gone: the trace is the rename and the message,
  with no rename back.
\<close>

theorem process_file_unsupported_strands_backup:
  "\<exists>st'. process_file full_env ''notes.txt'' ''DRAFT'' None True
            \<lparr>files = [''notes.txt'' \<mapsto> Other ''hello''], dirs = {}, unwritable = {}, trace = []\<rparr>
          = Inr (False, st') \<and>
        files st' ''notes.txt.tmp'' = Some (Other ''hello'') \<and>
        files st' ''notes.txt'' = None \<and>
        trace st' = [Rename ''notes.txt'' ''notes.txt.tmp'', Print (Unsupported_type ''.txt'')]"
  by (simp add: process_file_def path_defs os_defs Let_def)

text \<open>
  Claim C2 says that when the handler fails in overwrite mode the backup is renamed back to
  exactly the original path, also for a path that contains \<open>.tmp\<close>. The code renames the
  backup to the original path with every \<open>.tmp\<close> removed from it. For \<open>report.tmp.pdf\<close>
  holding a file that is not a PDF, the handler fails, the backup \<open>report.tmp.pdf.tmp\<close> is
  renamed to \<open>report.pdf\<close>, and nothing is left at \<open>report.tmp.pdf\<close>.
\<close>

theorem process_file_restores_to_other_path:
  "\<exists>st'. process_file full_env ''report.tmp.pdf'' ''DRAFT'' None True
            \<lparr>files = [''report.tmp.pdf'' \<mapsto> Other ''hello''], dirs = {}, unwritable = {},
             trace = []\<rparr>
          = Inr (False, st') \<and>
        files st' ''report.tmp.pdf'' = None \<and>
        files st' ''report.pdf'' = Some (Other ''hello'') \<and>
        actions (trace st') =
          [Rename ''report.tmp.pdf'' ''report.tmp.pdf.tmp'',
           Call PDF ''report.tmp.pdf.tmp'' ''report.tmp.pdf'',
           Rename ''report.tmp.pdf.tmp'' ''report.pdf'']"
  by (simp add: process_file_def path_defs os_defs handler_defs full_env_def actions_def Let_def)

text \<open>
  Claim C3 says that \<open>process_directory\<close> never raises: every failure on one file,
  an error of \<open>os.rename\<close> included, ends as a count in the tally. The code catches
  exceptions in the handlers only. A file that the walk listed and that is gone when its
  turn comes makes the backup rename of the overwrite mode raise, and the exception leaves
  \<open>process_directory\<close>: no tally is returned.
\<close>

theorem process_directory_raises:
  "process_directory full_env ''docs'' ''DRAFT'' None True (Dir [] [''a.pdf''])
     \<lparr>files = Map.empty, dirs = {''docs''}, unwritable = {}, trace = []\<rparr>
   = Inl (FileNotFoundError ''docs/a.pdf'')"
  by (simp add: process_directory_def supported_exts_def process_file_def Let_def
      path_defs os_defs)

lemma count_results_Nil: "count_results res [] = res"
  by (simp add: count_results_def)

lemma count_results_Cons:
  "count_results res (ok # oks) =
     count_results (if ok then res\<lparr>success := success res + 1\<rparr>
                    else res\<lparr>failed := failed res + 1\<rparr>) oks"
  by (simp add: count_results_def)

lemma count_results_append:
  "count_results res (xs @ ys) = count_results (count_results res xs) ys"
  by (simp add: count_results_def)

lemma outcomes_append:
  "outcomes ev wm ov (xs @ ys) st =
     (case outcomes ev wm ov xs st of
        Inl e \<Rightarrow> Inl e
      | Inr (oks, st1) \<Rightarrow>
          (case outcomes ev wm ov ys st1 of
             Inl e \<Rightarrow> Inl e
           | Inr (oks2, st2) \<Rightarrow> Inr (oks @ oks2, st2)))"
proof (induction xs arbitrary: st)
  case Nil
  show ?case by (simp split: sum.splits)
next
  case (Cons x xs)
  obtain f p fod where x: "x = (f, p, fod)" by (cases x)
  show ?case
    by (simp add: x Cons.IH split: sum.splits prod.splits)
qed

lemma process_files_outcomes:
  "process_files ev dp wm od ov r fs (res, st) =
     (case outcomes ev wm ov
             (map (\<lambda>f. (f, join r f,
                        case truthy od of None \<Rightarrow> None
                        | Some d \<Rightarrow> Some (join d (relpath r dp))))
                (filter eligible fs)) st of
        Inl e \<Rightarrow> Inl e
      | Inr (oks, st') \<Rightarrow> Inr (count_results res oks, st'))"
proof (induction fs arbitrary: res st)
  case Nil
  show ?case by (simp add: count_results_Nil)
next
  case (Cons f fs)
  show ?case
  proof (cases "eligible f")
    case False
    then have "process_files ev dp wm od ov r (f # fs) (res, st)
               = process_files ev dp wm od ov r fs (res, st)"
      by (auto simp: eligible_iff)
    with False Cons.IH show ?thesis by simp
  next
    case True
    then show ?thesis
      by (auto simp: eligible_iff Let_def Cons.IH count_results_Cons
          split: sum.splits prod.splits)
  qed
qed

lemma walk_outcomes:
  "walk ev dp wm od ov r tree acc =
     (case outcomes ev wm ov (targets dp od r tree) (snd acc) of
        Inl e \<Rightarrow> Inl e
      | Inr (oks, st') \<Rightarrow> Inr (count_results (fst acc) oks, st'))"
  "walk_dirs ev dp wm od ov r ds acc =
     (case outcomes ev wm ov (targets_dirs dp od r ds) (snd acc) of
        Inl e \<Rightarrow> Inl e
      | Inr (oks, st') \<Rightarrow> Inr (count_results (fst acc) oks, st'))"
proof (induction ev dp wm od ov r tree acc and ev dp wm od ov r ds acc
    rule: walk_walk_dirs.induct)
  case (1 e p x od ov r ds fs acc)
  obtain res st where acc: "acc = (res, st)" by (cases acc)
  show ?case
    using "1.IH"
    by (auto simp: acc process_files_outcomes outcomes_append count_results_append
        split: sum.splits prod.splits)
next
  case (2 e p x od ov r acc)
  show ?case by (simp add: count_results_Nil)
next
  case (3 e p x od ov r d t rest acc)
  show ?case
  proof (cases "startswith d ''.''")
    case True
    with "3.IH"(1) show ?thesis by simp
  next
    case False
    with "3.IH"(2,3) show ?thesis
      by (auto simp: outcomes_append count_results_append split: sum.splits prod.splits)
  qed
qed

lemma targets_selected:
  "map fst (targets dp od r tree) = selected tree"
  "map fst (targets_dirs dp od r ds) = selected_dirs ds"
  by (induction dp od r tree and dp od r ds rule: targets_targets_dirs.induct)
     (simp_all add: comp_def)

lemma outcomes_length:
  "outcomes ev wm ov ts st = Inr (oks, st') \<Longrightarrow> length oks = length ts"
proof (induction ts arbitrary: st oks)
  case Nil
  then show ?case by simp
next
  case (Cons x ts)
  obtain f p fod where x: "x = (f, p, fod)" by (cases x)
  from Cons.prems show ?case
    by (auto simp: x split: sum.splits prod.splits dest: Cons.IH)
qed

lemma process_file_missing_overwrite:
  assumes "files st fp = None"
  shows "process_file ev fp wm None True st = Inl (FileNotFoundError fp)"
  using assms by (simp add: process_file_def os_rename_def Let_def)

lemma process_file_makedirs_raises:
  assumes "truthy od = Some d" and "os_makedirs d st = Inl e"
  shows "process_file ev fp wm od ov st = Inl e"
  using assms by (simp add: process_file_def Let_def)

text \<open>
  Claim C3 as amended: for every walk, in every mode, \<open>process_directory\<close> is the count
  of what \<open>process_file\<close> returns on the selected files, one call per file, in order: a
  file for which it returns \<open>False\<close> counts as a failure, one for which it returns
  \<open>True\<close> as a success, and the walk goes on after either; the tally is returned unless
  a call raises, and then the exception leaves \<open>process_directory\<close>. With no output
  directory and no overwrite, \<open>process_file\<close> never raises, returns \<open>False\<close> for a
  file that is gone, and \<open>process_directory\<close> always returns its tally. With overwrite
  and no output directory, \<open>process_file\<close> raises for a file that is gone; with an output
  directory, it raises whenever \<open>os.makedirs\<close> does.
\<close>

theorem process_directory_counts_outcomes:
  "process_directory ev dp txt od ov tree st =
     (case outcomes ev txt ov (targets dp od dp tree) st of
        Inl e \<Rightarrow> Inl e
      | Inr (oks, st') \<Rightarrow>
          Inr (\<lparr>success = length (filter (\<lambda>ok. ok) oks),
                failed = length (filter (\<lambda>ok. \<not> ok) oks)\<rparr>, st')) \<and>
   map fst (targets dp od dp tree) = selected tree \<and>
   (\<forall>oks st'. outcomes ev txt ov (targets dp od dp tree) st = Inr (oks, st') \<longrightarrow>
      length oks = length (selected tree)) \<and>
   (\<exists>ok st'. process_file ev fp txt None False st = Inr (ok, st') \<and>
      (files st fp = None \<longrightarrow> \<not> ok)) \<and>
   (\<exists>res st'. process_directory ev dp txt None False tree st = Inr (res, st')) \<and>
   (files st fp = None \<longrightarrow>
      process_file ev fp txt None True st = Inl (FileNotFoundError fp)) \<and>
   (\<forall>d e. truthy od = Some d \<longrightarrow> os_makedirs d st = Inl e \<longrightarrow>
      process_file ev fp txt od ov st = Inl e)"
proof (intro conjI allI impI)
  show "process_directory ev dp txt od ov tree st =
     (case outcomes ev txt ov (targets dp od dp tree) st of
        Inl e \<Rightarrow> Inl e
      | Inr (oks, st') \<Rightarrow>
          Inr (\<lparr>success = length (filter (\<lambda>ok. ok) oks),
                failed = length (filter (\<lambda>ok. \<not> ok) oks)\<rparr>, st'))"
    by (simp add: process_directory_def walk_outcomes(1) count_results_def
        split: sum.splits prod.splits)
next
  show "map fst (targets dp od dp tree) = selected tree"
    by (rule targets_selected(1))
next
  fix oks st'
  assume "outcomes ev txt ov (targets dp od dp tree) st = Inr (oks, st')"
  from outcomes_length[OF this] targets_selected(1)[of dp od dp tree]
  show "length oks = length (selected tree)"
    by (metis length_map)
next
  obtain ok st' where a: "process_file ev fp txt None False st = Inr (ok, st')"
    using process_file_sibling_returns[of None] by fastforce
  with process_file_sibling_missing[of None st fp ev _ ok st']
  show "\<exists>ok st'. process_file ev fp txt None False st = Inr (ok, st') \<and>
      (files st fp = None \<longrightarrow> \<not> ok)"
    by auto
next
  show "\<exists>res st'. process_directory ev dp txt None False tree st = Inr (res, st')"
    by (rule process_directory_sibling_returns)
next
  assume "files st fp = None"
  then show "process_file ev fp txt None True st = Inl (FileNotFoundError fp)"
    by (rule process_file_missing_overwrite)
next
  fix d e
  assume "truthy od = Some d" and "os_makedirs d st = Inl e"
  then show "process_file ev fp txt od ov st = Inl e"
    by (rule process_file_makedirs_raises)
qed

text \<open>A directory whose only file is not a PDF, walked with overwrite: no success, one
  failure. A file that is gone, and an output directory that is a regular file.\<close>

theorem process_directory_counts_outcomes_witness:
  "(\<exists>st'. process_directory full_env ''docs'' ''DRAFT'' None True (Dir [] [''a.pdf''])
            \<lparr>files = [''docs/a.pdf'' \<mapsto> Other ''junk''], dirs = {''docs''}, unwritable = {},
             trace = []\<rparr>
          = Inr (\<lparr>success = 0, failed = 1\<rparr>, st')) \<and>
   (\<exists>ok st'. process_file full_env ''docs/gone.pdf'' ''DRAFT'' None False
            \<lparr>files = [''docs/a.pdf'' \<mapsto> Other ''junk''], dirs = {''docs''}, unwritable = {},
             trace = []\<rparr>
          = Inr (ok, st') \<and> \<not> ok) \<and>
   process_file full_env ''docs/gone.pdf'' ''DRAFT'' None True
     \<lparr>files = [''docs/a.pdf'' \<mapsto> Other ''junk''], dirs = {''docs''}, unwritable = {},
      trace = []\<rparr>
     = Inl (FileNotFoundError ''docs/gone.pdf'') \<and>
   process_file full_env ''docs/gone.pdf'' ''DRAFT'' (Some ''docs/a.pdf'') False
     \<lparr>files = [''docs/a.pdf'' \<mapsto> Other ''junk''], dirs = {''docs''}, unwritable = {},
      trace = []\<rparr>
     = Inl (FileExistsError ''docs/a.pdf'')"
proof -
  let ?st = "\<lparr>files = [''docs/a.pdf'' \<mapsto> Other ''junk''], dirs = {''docs''}, unwritable = {},
             trace = []\<rparr>"
  let ?tree = "Dir [] [''a.pdf'']"
  note th1 = process_directory_counts_outcomes
      [of full_env "''docs''" "''DRAFT''" None True ?tree ?st "''docs/gone.pdf''"]
  note th2 = process_directory_counts_outcomes
      [of full_env "''docs''" "''DRAFT''" "Some ''docs/a.pdf''" False ?tree ?st
          "''docs/gone.pdf''"]
  have t: "targets ''docs'' None ''docs'' ?tree = [(''a.pdf'', ''docs/a.pdf'', None)]"
    by (simp add: eligible_def path_defs)
  have o: "\<exists>st'. outcomes full_env ''DRAFT'' True [(''a.pdf'', ''docs/a.pdf'', None)] ?st
             = Inr ([False], st')"
    by (simp add: process_file_def path_defs os_defs handler_defs full_env_def Let_def)
  from th1[THEN conjunct1] t o
  have a: "\<exists>st'. process_directory full_env ''docs'' ''DRAFT'' None True ?tree ?st
          = Inr (\<lparr>success = 0, failed = 1\<rparr>, st')"
    by auto
  have m: "files ?st ''docs/gone.pdf'' = None" by simp
  from th1[THEN conjunct2, THEN conjunct2, THEN conjunct2, THEN conjunct1] m
  have b: "\<exists>ok st'. process_file full_env ''docs/gone.pdf'' ''DRAFT'' None False ?st
          = Inr (ok, st') \<and> \<not> ok"
    by auto
  from th1[THEN conjunct2, THEN conjunct2, THEN conjunct2, THEN conjunct2, THEN conjunct2,
      THEN conjunct1, rule_format, OF m]
  have c: "process_file full_env ''docs/gone.pdf'' ''DRAFT'' None True ?st
     = Inl (FileNotFoundError ''docs/gone.pdf'')" .
  have k: "os_makedirs ''docs/a.pdf'' ?st = Inl (FileExistsError ''docs/a.pdf'')"
    by (simp add: os_defs)
  from th2[THEN conjunct2, THEN conjunct2, THEN conjunct2, THEN conjunct2, THEN conjunct2,
      THEN conjunct2, rule_format, OF _ k]
  have d: "process_file full_env ''docs/gone.pdf'' ''DRAFT'' (Some ''docs/a.pdf'') False ?st
     = Inl (FileExistsError ''docs/a.pdf'')"
    by simp
  from a b c d show ?thesis by blast
qed

text \<open>
  Claim C5: whenever a walk returns its tally, the files it announced and passed to
  \<open>process_file\<close> are exactly the selected ones, in order (the subtrees of the
  directories whose name starts with a dot are pruned, the files whose name starts with
  \<open>~$\<close> or a dot are skipped, the files with another extension are ignored and not
  counted), and the successes and the failures add up to their number: each processed file
  is counted once. With no output directory and no overwrite the walk always returns. For
  the tree \<open>root/a.pdf\<close>, \<open>root/b.docx\<close>, \<open>root/c.txt\<close>, \<open>root/.hidden.xlsx\<close>
  with the two documents valid, the tally is two successes and no failure, and the only
  handler calls are the one for \<open>a.pdf\<close> and the one for \<open>b.docx\<close>.
\<close>

theorem process_directory_selects_and_counts:
  "(\<forall>res st'. process_directory ev dp t od ov tree st = Inr (res, st') \<longrightarrow>
        processed (trace st') = processed (trace st) @ selected tree \<and>
        success res + failed res = length (selected tree)) \<and>
   (\<exists>res st'. process_directory ev dp t None False tree st = Inr (res, st')) \<and>
   (\<exists>st'. process_directory full_env ''root'' ''DRAFT'' None False
            (Dir [] [''a.pdf'', ''b.docx'', ''c.txt'', ''.hidden.xlsx''])
            \<lparr>files = [''root/a.pdf'' \<mapsto> Pdf [\<lparr>mediabox = (612, 792), contents = [Opaque ''body'']\<rparr>],
                      ''root/b.docx'' \<mapsto> Docx \<lparr>body = [], header_parts = [],
                                  sections = [\<lparr>header_ref = None, footer = []\<rparr>]\<rparr>,
                      ''root/c.txt'' \<mapsto> Other ''text'',
                      ''root/.hidden.xlsx'' \<mapsto> Xlsx \<lparr>worksheets = []\<rparr>],
             dirs = {''root''}, unwritable = {}, trace = []\<rparr>
          = Inr (\<lparr>success = 2, failed = 0\<rparr>, st') \<and>
        processed (trace st') = [''a.pdf'', ''b.docx''] \<and>
        actions (trace st') =
          [Call PDF ''root/a.pdf'' ''root/a_watermarked.pdf'',
           Call DOCX ''root/b.docx'' ''root/b_watermarked.docx''])"
proof (intro conjI allI impI)
  fix res st'
  assume r: "process_directory ev dp t od ov tree st = Inr (res, st')"
  show "processed (trace st') = processed (trace st) @ selected tree"
    by (rule process_directory_returned(1)[OF r])
  show "success res + failed res = length (selected tree)"
    by (rule process_directory_returned(2)[OF r])
next
  show "\<exists>res st'. process_directory ev dp t None False tree st = Inr (res, st')"
    by (rule process_directory_sibling_returns)
next
  show "\<exists>st'. process_directory full_env ''root'' ''DRAFT'' None False
            (Dir [] [''a.pdf'', ''b.docx'', ''c.txt'', ''.hidden.xlsx''])
            \<lparr>files = [''root/a.pdf'' \<mapsto> Pdf [\<lparr>mediabox = (612, 792), contents = [Opaque ''body'']\<rparr>],
                      ''root/b.docx'' \<mapsto> Docx \<lparr>body = [], header_parts = [],
                                  sections = [\<lparr>header_ref = None, footer = []\<rparr>]\<rparr>,
                      ''root/c.txt'' \<mapsto> Other ''text'',
                      ''root/.hidden.xlsx'' \<mapsto> Xlsx \<lparr>worksheets = []\<rparr>],
             dirs = {''root''}, unwritable = {}, trace = []\<rparr>
          = Inr (\<lparr>success = 2, failed = 0\<rparr>, st') \<and>
        processed (trace st') = [''a.pdf'', ''b.docx''] \<and>
        actions (trace st') =
          [Call PDF ''root/a.pdf'' ''root/a_watermarked.pdf'',
           Call DOCX ''root/b.docx'' ''root/b_watermarked.docx'']"
    by (simp add: process_directory_def supported_exts_def process_file_def Let_def
        path_defs os_defs handler_defs full_env_def actions_def watermark_page_def
        create_watermark_pdf_def save_canvas_def watermark_document_def
        watermark_section_def add_definition_def)
qed

text \<open>The same on a tree with a pruned directory, a lock file and an upper-case
  extension, all files gone from the disk: two files are processed and counted.\<close>

theorem process_directory_selects_and_counts_witness:
  "\<exists>res st'. process_directory full_env ''docs'' ''DRAFT'' None False
        (Dir [(''.git'', Dir [] [''x.pdf'']), (''sub'', Dir [] [''d.PDF'', ''~$d.docx''])]
             [''a.pdf'', ''notes.md''])
        \<lparr>files = Map.empty, dirs = {''docs''}, unwritable = {}, trace = []\<rparr> = Inr (res, st') \<and>
      processed (trace st') = [''a.pdf'', ''d.PDF''] \<and>
      success res + failed res = 2"
  using process_directory_selects_and_counts
    [of full_env "''docs''" "''DRAFT''" None False
        "Dir [(''.git'', Dir [] [''x.pdf'']), (''sub'', Dir [] [''d.PDF'', ''~$d.docx''])]
             [''a.pdf'', ''notes.md'']"
        "\<lparr>files = Map.empty, dirs = {''docs''}, unwritable = {}, trace = []\<rparr>"]
  by (auto simp: eligible_def path_defs)

section \<open>The three output modes\<close>









section \<open>The extension of the backup path\<close>















section \<open>The exit status\<close>

text \<open>
  Claim C6 says that the exit status is 1 exactly when a single-file operation returns
  failure, when no target is resolvable, or when the target does not exist, and 0 after
  directory-mode processing. An exception that escapes \<open>process_file\<close> also ends the
  process with status 1. Here the target is the existing directory \<open>docs\<close> and \<open>-o\<close>
  names an existing regular file \<open>out\<close>: \<open>os.makedirs\<close> raises for the first file,
  nothing catches it, and the status is 1 in directory mode.
\<close>

theorem main_exit_one_in_directory_mode:
  "exit_status
     (main full_env
        \<lparr>arg_path = None, arg_text = ''DRAFT'', arg_directory = Some ''docs'',
         arg_output = Some ''out'', arg_overwrite = False\<rparr>
        (Dir [] [''a.pdf''])
        \<lparr>files = [''docs/a.pdf'' \<mapsto> Pdf [], ''out'' \<mapsto> Other ''notes''], dirs = {''docs''},
         unwritable = {}, trace = []\<rparr>) = 1 \<and>
   resolve_target
     \<lparr>arg_path = None, arg_text = ''DRAFT'', arg_directory = Some ''docs'',
      arg_output = Some ''out'', arg_overwrite = False\<rparr> = Some ''docs'' \<and>
   path_exists
     \<lparr>files = [''docs/a.pdf'' \<mapsto> Pdf [], ''out'' \<mapsto> Other ''notes''], dirs = {''docs''},
      unwritable = {}, trace = []\<rparr> ''docs'' \<and>
   \<not> isfile
     \<lparr>files = [''docs/a.pdf'' \<mapsto> Pdf [], ''out'' \<mapsto> Other ''notes''], dirs = {''docs''},
      unwritable = {}, trace = []\<rparr> ''docs'' \<and>
   process_directory full_env ''docs'' ''DRAFT'' (Some ''out'') False (Dir [] [''a.pdf''])
     \<lparr>files = [''docs/a.pdf'' \<mapsto> Pdf [], ''out'' \<mapsto> Other ''notes''], dirs = {''docs''},
      unwritable = {}, trace = []\<rparr> = Inl (NotADirectoryError ''out/.'')"
  by (simp add: main_def exit_status_def resolve_target_def path_exists_def isfile_def
      process_directory_def supported_exts_def process_file_def Let_def relpath_def
      components_def path_defs os_defs)

text \<open>
  Claim C6 as amended: the exit status is 0 or 1; it is 1 exactly when no target is
  resolvable, or the target does not exist, or the target is a file and \<open>process_file\<close>
  returns failure, or an exception escapes \<open>process_file\<close> (single file) or
  \<open>process_directory\<close> (directory); and it is 0 whenever the directory walk returns its
  tally, whatever the counts.
\<close>

theorem main_exit_status:
  "(exit_status (main ev a tree st) = 1 \<longleftrightarrow>
      resolve_target a = None \<or>
      (\<exists>target. resolve_target a = Some target \<and>
         (\<not> path_exists st target \<or>
          (isfile st target \<and>
             (\<exists>st'. process_file ev target (arg_text a) (arg_output a) (arg_overwrite a) st
                      = Inr (False, st'))) \<or>
          (isfile st target \<and>
             (\<exists>e. process_file ev target (arg_text a) (arg_output a) (arg_overwrite a) st
                      = Inl e)) \<or>
          (\<not> isfile st target \<and>
             (\<exists>e. process_directory ev target (arg_text a) (arg_output a) (arg_overwrite a)
                      tree st = Inl e))))) \<and>
   (exit_status (main ev a tree st) = 0 \<or> exit_status (main ev a tree st) = 1) \<and>
   (\<forall>target res st'.
      resolve_target a = Some target \<longrightarrow> path_exists st target \<longrightarrow> \<not> isfile st target \<longrightarrow>
      process_directory ev target (arg_text a) (arg_output a) (arg_overwrite a) tree st
        = Inr (res, st') \<longrightarrow>
      exit_status (main ev a tree st) = 0)"
  by (auto simp: main_def exit_status_def split: option.splits sum.splits prod.splits if_splits)

text \<open>A directory whose only file fails: the tally is no success and one failure, the
  status is 0.\<close>

theorem main_exit_status_witness:
  "exit_status
     (main full_env
        \<lparr>arg_path = None, arg_text = ''DRAFT'', arg_directory = Some ''docs'',
         arg_output = None, arg_overwrite = False\<rparr>
        (Dir [] [''a.pdf''])
        \<lparr>files = Map.empty, dirs = {''docs''}, unwritable = {}, trace = []\<rparr>) = 0 \<and>
   (\<exists>st'. process_directory full_env ''docs'' ''DRAFT'' None False (Dir [] [''a.pdf''])
        \<lparr>files = Map.empty, dirs = {''docs''}, unwritable = {}, trace = []\<rparr>
      = Inr (\<lparr>success = 0, failed = 1\<rparr>, st'))"
proof -
  let ?a = "\<lparr>arg_path = None, arg_text = ''DRAFT'', arg_directory = Some ''docs'',
         arg_output = None, arg_overwrite = False\<rparr>"
  let ?st = "\<lparr>files = Map.empty, dirs = {''docs''}, unwritable = {}, trace = []\<rparr>"
  have r: "resolve_target ?a = Some ''docs''" by (simp add: resolve_target_def)
  have e: "path_exists ?st ''docs''" by (simp add: path_exists_def)
  have f: "\<not> isfile ?st ''docs''" by (simp add: isfile_def)
  obtain st' where d: "process_directory full_env ''docs'' ''DRAFT'' None False (Dir [] [''a.pdf'']) ?st
      = Inr (\<lparr>success = 0, failed = 1\<rparr>, st')"
    by (simp add: process_directory_def supported_exts_def process_file_def Let_def
      path_defs os_defs handler_defs full_env_def)
  from main_exit_status[of full_env ?a "Dir [] [''a.pdf'']" ?st,
      THEN conjunct2, THEN conjunct2, rule_format, OF r e f] d
  have "exit_status (main full_env ?a (Dir [] [''a.pdf'']) ?st) = 0" by simp
  with d show ?thesis by blast
qed

section \<open>The PDF handler\<close>

lemmas canvas_defs = Canvas_def setFillColorRGB_def setFont_def saveState_def restoreState_def
  translate_def rotate_canvas_def drawCentredString_def save_canvas_def to_page_def

lemma create_watermark_pdf_overlay:
  "create_watermark_pdf ev txt w h = [\<lparr>mediabox = (w, h), contents = overlay_marks ev txt w h\<rparr>]"
  by (simp add: create_watermark_pdf_def overlay_marks_def canvas_defs Let_def)

lemma watermark_page_overlay:
  "watermark_page ev txt pg =
     Some (pg\<lparr>contents := contents pg @
                  overlay_marks ev txt (fst (mediabox pg)) (snd (mediabox pg))\<rparr>)"
  by (simp add: watermark_page_def create_watermark_pdf_overlay merge_page_def)

lemma watermark_pages_overlay:
  "watermark_pages ev txt pages =
     Some (map (\<lambda>pg. pg\<lparr>contents := contents pg @
                  overlay_marks ev txt (fst (mediabox pg)) (snd (mediabox pg))\<rparr>) pages)"
  by (induction pages) (simp_all add: watermark_page_overlay)

text \<open>
  Claim C8: for a PDF that can be read and an output path that can be written, the overlay
  built for a page of width \<open>w\<close> and height \<open>h\<close> is one page of exactly that size whose
  content is the text drawn three times: anchored at the centre, at a quarter of the width
  and three quarters of the height, and at three quarters of the width and a quarter of the
  height, each in a coordinate system rotated by 45 degrees about the anchor, filled with
  RGB (0.7, 0.7, 0.7) at alpha 0.3, in size 30 (the registered font, or Helvetica). The
  handler returns \<open>True\<close> and writes to the output path, and nowhere else, the pages of
  the input in order, each with the overlay for its own media box painted over its content.
\<close>

theorem add_watermark_pdf_overlays_every_page:
  assumes "PDF_SUPPORT ev" and "files st input_path = Some (Pdf pages)"
    and "output_path \<notin> unwritable st"
  shows
    "(\<forall>w h. create_watermark_pdf ev txt w h =
         [\<lparr>mediabox = (w, h),
           contents =
             [Centred_text (w / 2, h / 2) 45 txt (0.7, 0.7, 0.7, 0.3)
                (if FONT_REGISTERED ev then ''ChineseFont'' else ''Helvetica'', 30),
              Centred_text (w * 0.25, h * 0.75) 45 txt (0.7, 0.7, 0.7, 0.3)
                (if FONT_REGISTERED ev then ''ChineseFont'' else ''Helvetica'', 30),
              Centred_text (w * 0.75, h * 0.25) 45 txt (0.7, 0.7, 0.7, 0.3)
                (if FONT_REGISTERED ev then ''ChineseFont'' else ''Helvetica'', 30)]\<rparr>]) \<and>
     (\<exists>st'. add_watermark_pdf ev input_path output_path txt st = (True, st') \<and>
        files st' =
          (files st)(output_path \<mapsto>
             Pdf (map (\<lambda>pg. pg\<lparr>contents := contents pg @
                        contents (hd (create_watermark_pdf ev txt
                                        (fst (mediabox pg)) (snd (mediabox pg))))\<rparr>) pages)))"
  using assms
  by (simp add: create_watermark_pdf_overlay overlay_marks_def add_watermark_pdf_def
      watermark_pages_overlay write_file_def emit_def Let_def)

text \<open>A one-page document of 612 by 792 points.\<close>

theorem add_watermark_pdf_overlays_every_page_witness:
  "\<exists>st'. add_watermark_pdf full_env ''a.pdf'' ''b.pdf'' ''DRAFT''
            \<lparr>files = [''a.pdf'' \<mapsto> Pdf [\<lparr>mediabox = (612, 792), contents = [Opaque ''body'']\<rparr>]],
             dirs = {}, unwritable = {}, trace = []\<rparr> = (True, st') \<and>
        files st' ''b.pdf'' =
          Some (Pdf [\<lparr>mediabox = (612, 792),
                     contents =
                       [Opaque ''body'',
                        Centred_text (306, 396) 45 ''DRAFT'' (0.7, 0.7, 0.7, 0.3) (''Helvetica'', 30),
                        Centred_text (153, 594) 45 ''DRAFT'' (0.7, 0.7, 0.7, 0.3) (''Helvetica'', 30),
                        Centred_text (459, 198) 45 ''DRAFT'' (0.7, 0.7, 0.7, 0.3) (''Helvetica'', 30)]\<rparr>])"
  using add_watermark_pdf_overlays_every_page
    [of full_env
        "\<lparr>files = [''a.pdf'' \<mapsto> Pdf [\<lparr>mediabox = (612, 792), contents = [Opaque ''body'']\<rparr>]],
          dirs = {}, unwritable = {}, trace = []\<rparr>"
        "''a.pdf''" "[\<lparr>mediabox = (612, 792), contents = [Opaque ''body'']\<rparr>]" "''b.pdf''"
        "''DRAFT''"]
  by (auto simp add: full_env_def)

section \<open>The Word handler\<close>

lemma valid_refs_nth:
  "valid_refs doc \<Longrightarrow> n < length (sections doc) \<Longrightarrow> header_ref (sections doc ! n) = Some r
     \<Longrightarrow> r < length (header_parts doc)"
  by (auto simp: valid_refs_def list_all_length split: option.splits)

lemma stamped_once_more: "stamped 1 wm (stamped k wm ps) = stamped (Suc k) wm ps"
  by (cases ps) (auto simp: stamped_def replicate_append_same)

lemma stamped_funpow: "(stamped 1 wm ^^ k) ps = stamped k wm ps"
proof (induction k)
  case 0
  show ?case by (simp add: stamped_def)
next
  case (Suc k)
  then show ?case by (simp add: stamped_once_more del: One_nat_def)
qed

lemma stamped_funpow_Suc: "(stamped (Suc 0) wm ^^ k) ps = stamped k wm ps"
  using stamped_funpow[where k = k and ps = ps] by simp

lemma stamped_zero: "stamped 0 wm ps = ps"
  by (simp add: stamped_def)

lemma first_runs_stamped:
  "first_runs (stamped k wm ps) = first_runs ps @ replicate k (watermark_run wm)"
  by (cases ps) (auto simp: stamped_def first_runs_def)

lemma defined_resolved:
  assumes "defined_doc d" and "n < length (sections d)"
  shows "\<exists>r. resolved (sections d) n = Some r \<and> r < length (header_parts d) \<and>
             get_or_add_definition n d = (r, d)"
  using assms(2)
proof (induction n)
  case 0
  with assms(1) obtain r where r: "header_ref (sections d ! 0) = Some r"
    by (auto simp: defined_doc_def)
  with assms(1) 0 valid_refs_nth[of d 0 r] show ?case
    by (simp add: defined_doc_def)
next
  case (Suc m)
  show ?case
  proof (cases "header_ref (sections d ! Suc m)")
    case None
    with Suc show ?thesis by simp
  next
    case (Some r)
    with assms(1) Suc.prems valid_refs_nth[of d "Suc m" r] show ?thesis
      by (simp add: defined_doc_def)
  qed
qed

lemma watermark_section_defined:
  assumes "defined_doc d" and "n < length (sections d)"
    and "resolved (sections d) n = Some r"
  shows "watermark_section wm n d =
           Some (d\<lparr>header_parts := (header_parts d)[r := stamped 1 wm (header_parts d ! r)]\<rparr>)"
proof -
  from defined_resolved[OF assms(1,2)] assms(3)
  have g: "get_or_add_definition n d = (r, d)" and lt: "r < length (header_parts d)" by auto
  show ?thesis
    using lt
    by (cases "header_parts d ! r")
       (simp_all add: watermark_section_def g stamped_def watermark_run_def Let_def)
qed

lemma defined_doc_update:
  assumes "defined_doc d" and "length P = length (header_parts d)"
  shows "defined_doc (d\<lparr>header_parts := P\<rparr>)"
  using assms by (simp add: defined_doc_def valid_refs_def cong: option.case_cong)


lemma fold_update_nth:
  assumes "\<forall>r \<in> set rs. r < length P" and "q < length P"
  shows "length (foldl (\<lambda>P r. P[r := f (P ! r)]) P rs) = length P \<and>
         foldl (\<lambda>P r. P[r := f (P ! r)]) P rs ! q = (f ^^ count_list rs q) (P ! q)"
  using assms
proof (induction rs arbitrary: P)
  case Nil
  show ?case by simp
next
  case (Cons r rs)
  let ?P = "P[r := f (P ! r)]"
  have a: "\<forall>r \<in> set rs. r < length ?P" and b: "q < length ?P"
    using Cons.prems by simp_all
  from Cons.IH[OF a b] Cons.prems show ?case
    by (auto simp: funpow_swap1)
qed

lemma watermark_sections_defined:
  assumes "defined_doc d" and "\<forall>n \<in> set ns. n < length (sections d)"
  shows "watermark_sections wm ns d =
           Some (d\<lparr>header_parts :=
                    foldl (\<lambda>P r. P[r := stamped 1 wm (P ! r)]) (header_parts d)
                      (map (\<lambda>n. the (resolved (sections d) n)) ns)\<rparr>)"
  using assms
proof (induction ns arbitrary: d)
  case Nil
  show ?case by simp
next
  case (Cons n ns)
  from Cons.prems have n: "n < length (sections d)" by simp
  from defined_resolved[OF Cons.prems(1) n] obtain r where
    r: "resolved (sections d) n = Some r" and lt: "r < length (header_parts d)" by blast
  let ?d1 = "d\<lparr>header_parts := (header_parts d)[r := stamped 1 wm (header_parts d ! r)]\<rparr>"
  have s: "watermark_section wm n d = Some ?d1"
    by (rule watermark_section_defined[OF Cons.prems(1) n r])
  have d1: "defined_doc ?d1"
    by (rule defined_doc_update[OF Cons.prems(1)]) simp
  have "\<forall>n \<in> set ns. n < length (sections ?d1)" using Cons.prems(2) by simp
  from Cons.IH[OF d1 this] s r show ?case by simp
qed

lemma count_list_map_filter:
  "count_list (map g ns) q = length (filter (\<lambda>n. g n = q) ns)"
  by (induction ns) auto

lemma watermark_document_defined:
  assumes "defined_doc d"
  shows "\<exists>d'. watermark_document wm d = Some d' \<and>
           body d' = body d \<and> sections d' = sections d \<and>
           length (header_parts d') = length (header_parts d) \<and>
           (\<forall>q < length (header_parts d).
              header_parts d' ! q = stamped (uses d (Some q)) wm (header_parts d ! q))"
proof -
  let ?ns = "[0..<length (sections d)]"
  let ?rs = "map (\<lambda>n. the (resolved (sections d) n)) ?ns"
  let ?P = "foldl (\<lambda>P r. P[r := stamped 1 wm (P ! r)]) (header_parts d) ?rs"
  have w: "watermark_document wm d = Some (d\<lparr>header_parts := ?P\<rparr>)"
    unfolding watermark_document_def
    by (rule watermark_sections_defined[OF assms]) simp
  have inr: "\<forall>r \<in> set ?rs. r < length (header_parts d)"
    using defined_resolved[OF assms] by fastforce
  have cnt: "count_list ?rs q = uses d (Some q)" for q
  proof -
    have "filter (\<lambda>n. the (resolved (sections d) n) = q) ?ns
          = filter (\<lambda>n. resolved (sections d) n = Some q) ?ns"
    proof (intro filter_cong refl)
      fix n assume "n \<in> set ?ns"
      then have "n < length (sections d)" by simp
      from defined_resolved[OF assms this] obtain r where "resolved (sections d) n = Some r"
        by blast
      then show "(the (resolved (sections d) n) = q) = (resolved (sections d) n = Some q)"
        by simp
    qed
    then show ?thesis by (simp add: count_list_map_filter uses_def)
  qed
  have "length ?P = length (header_parts d)"
  proof (cases "header_parts d")
    case Nil
    with inr have "?rs = []" by (cases ?rs) auto
    with Nil show ?thesis by simp
  next
    case (Cons a list)
    then have "0 < length (header_parts d)" by simp
    from fold_update_nth[OF inr this] show ?thesis by simp
  qed
  moreover have "\<forall>q < length (header_parts d).
      ?P ! q = stamped (uses d (Some q)) wm (header_parts d ! q)"
    using fold_update_nth[OF inr] by (simp add: stamped_funpow_Suc cnt)
  ultimately show ?thesis using w by simp
qed

lemma sharing_pos:
  assumes "n < length (sections doc)"
  shows "1 \<le> sharing doc n"
proof -
  have "n \<in> set (filter (\<lambda>m. resolved (sections doc) m = resolved (sections doc) n)
                  [0..<length (sections doc)])"
    using assms by simp
  then have "filter (\<lambda>m. resolved (sections doc) m = resolved (sections doc) n)
                  [0..<length (sections doc)] \<noteq> []"
    by (metis empty_iff list.set(1))
  then show ?thesis
    by (cases "filter (\<lambda>m. resolved (sections doc) m = resolved (sections doc) n)
                  [0..<length (sections doc)]") (simp_all add: sharing_def uses_def)
qed

lemma resolved_valid:
  assumes "valid_refs doc" and "n < length (sections doc)"
    and "resolved (sections doc) n = Some r"
  shows "r < length (header_parts doc)"
  using assms(2,3)
proof (induction n)
  case 0
  with assms(1) valid_refs_nth[of doc 0 r] show ?case by simp
next
  case (Suc m)
  with assms(1) valid_refs_nth[of doc "Suc m" r] show ?case
    by (cases "header_ref (sections doc ! Suc m)") auto
qed

lemma resolved_cong:
  assumes "\<forall>m \<le> n. header_ref (secs' ! m) = header_ref (secs ! m)"
  shows "resolved secs' n = resolved secs n"
  using assms by (induction n) (auto split: option.splits)

lemma uses_cong:
  assumes "length (sections d') = length (sections d)"
    and "\<forall>m < length (sections d). resolved (sections d') m = resolved (sections d) m"
  shows "uses d' ref = uses d ref"
proof -
  have "filter (\<lambda>m. resolved (sections d') m = ref) [0..<length (sections d)]
        = filter (\<lambda>m. resolved (sections d) m = ref) [0..<length (sections d)]"
    using assms(2) by (intro filter_cong) auto
  with assms(1) show ?thesis by (simp add: uses_def)
qed

text \<open>Case A: the first section has a header definition (or there is no section).\<close>

lemma watermark_document_result_defined:
  assumes "defined_doc doc"
  shows "\<exists>d'. watermark_document wm doc = Some d' \<and> body d' = body doc \<and>
           sections d' = sections doc \<and> defined_doc d' \<and>
           length (header_parts d') = length (header_parts doc) \<and>
           (\<forall>n < length (sections doc).
              header_of d' n = stamped (sharing doc n) wm (header_of doc n) \<and>
              sharing d' n = sharing doc n) \<and>
           (\<forall>q < length (header_parts doc).
              uses doc (Some q) = 0 \<longrightarrow> header_parts d' ! q = header_parts doc ! q)"
proof -
  from watermark_document_defined[OF assms] obtain d' where
    w: "watermark_document wm doc = Some d'" and b: "body d' = body doc"
    and s: "sections d' = sections doc"
    and l: "length (header_parts d') = length (header_parts doc)"
    and p: "\<forall>q < length (header_parts doc).
              header_parts d' ! q = stamped (uses doc (Some q)) wm (header_parts doc ! q)"
    by blast
  have dd: "defined_doc d'"
    using assms s l by (simp add: defined_doc_def valid_refs_def cong: option.case_cong)
  have h: "header_of d' n = stamped (sharing doc n) wm (header_of doc n) \<and>
           sharing d' n = sharing doc n" if n: "n < length (sections doc)" for n
  proof -
    from defined_resolved[OF assms n] obtain r where
      r: "resolved (sections doc) n = Some r" and lt: "r < length (header_parts doc)" by blast
    have "uses d' ref = uses doc ref" for ref
      by (rule uses_cong) (simp_all add: s)
    with r lt p s show ?thesis
      by (simp add: header_of_def sharing_def)
  qed
  have u: "\<forall>q < length (header_parts doc).
              uses doc (Some q) = 0 \<longrightarrow> header_parts d' ! q = header_parts doc ! q"
    using p by (simp add: stamped_zero)
  from w b s dd l h u show ?thesis by blast
qed

text \<open>Case B: the first section has no header definition.\<close>

lemma add_definition_facts:
  assumes v: "valid_refs doc" and ne: "sections doc \<noteq> []"
    and none: "header_ref (sections doc ! 0) = None"
  defines "d0 \<equiv> snd (add_definition doc)"
  shows "defined_doc d0"
    and "body d0 = body doc"
    and "length (sections d0) = length (sections doc)"
    and "header_parts d0 = header_parts doc @ [[\<lparr>runs = [], alignment = None\<rparr>]]"
    and "\<forall>n < length (sections doc). footer (sections d0 ! n) = footer (sections doc ! n)"
    and "\<forall>n < length (sections doc).
           resolved (sections d0) n =
             (case resolved (sections doc) n of
                None \<Rightarrow> Some (length (header_parts doc))
              | Some r \<Rightarrow> Some r)"
    and "watermark_document wm doc = watermark_document wm d0"
proof -
  let ?L = "length (header_parts doc)"
  have secs: "sections d0 = (sections doc)[0 := (sections doc ! 0)\<lparr>header_ref := Some ?L\<rparr>]"
    and parts: "header_parts d0 = header_parts doc @ [[\<lparr>runs = [], alignment = None\<rparr>]]"
    and body: "body d0 = body doc"
    by (simp_all add: d0_def add_definition_def)
  show "body d0 = body doc" by (rule body)
  show len: "length (sections d0) = length (sections doc)" by (simp add: secs)
  show "header_parts d0 = header_parts doc @ [[\<lparr>runs = [], alignment = None\<rparr>]]" by (rule parts)
  have ref0: "header_ref (sections d0 ! 0) = Some ?L"
    using ne by (simp add: secs)
  have refn: "header_ref (sections d0 ! n) = header_ref (sections doc ! n)" if "0 < n" for n
    using that by (simp add: secs)
  show "defined_doc d0"
    unfolding defined_doc_def valid_refs_def list_all_length
  proof (intro conjI allI impI)
    fix n assume n: "n < length (sections d0)"
    show "case header_ref (sections d0 ! n) of None \<Rightarrow> True
          | Some r \<Rightarrow> r < length (header_parts d0)"
    proof (cases n)
      case 0
      with ref0 show ?thesis by (simp add: parts)
    next
      case (Suc m)
      with n len valid_refs_nth[OF v, of n] refn[of n] show ?thesis
        by (auto simp: parts split: option.splits)
    qed
  next
    show "header_ref (sections d0 ! 0) \<noteq> None" using ref0 by simp
  qed
  show "\<forall>n < length (sections doc). footer (sections d0 ! n) = footer (sections doc ! n)"
  proof (intro allI impI)
    fix n assume "n < length (sections doc)"
    then show "footer (sections d0 ! n) = footer (sections doc ! n)"
      by (cases n) (simp_all add: secs)
  qed
  show "\<forall>n < length (sections doc).
           resolved (sections d0) n =
             (case resolved (sections doc) n of
                None \<Rightarrow> Some (length (header_parts doc))
              | Some r \<Rightarrow> Some r)"
  proof (intro allI impI)
    fix n assume "n < length (sections doc)"
    then show "resolved (sections d0) n =
             (case resolved (sections doc) n of
                None \<Rightarrow> Some (length (header_parts doc))
              | Some r \<Rightarrow> Some r)"
    proof (induction n)
      case 0
      with ref0 none show ?case by simp
    next
      case (Suc m)
      with refn[of "Suc m"] show ?case
        by (cases "header_ref (sections doc ! Suc m)") simp_all
    qed
  qed
  have g: "get_or_add_definition 0 doc = (?L, d0)"
    using none by (simp add: d0_def add_definition_def)
  have g0: "get_or_add_definition 0 d0 = (?L, d0)"
    using ref0 by simp
  have "watermark_section wm 0 doc = watermark_section wm 0 d0"
    by (simp add: watermark_section_def g g0 del: get_or_add_definition.simps)
  moreover have "[0..<length (sections doc)] = 0 # [1..<length (sections doc)]"
    using ne by (simp add: upt_conv_Cons)
  ultimately show "watermark_document wm doc = watermark_document wm d0"
    by (simp add: watermark_document_def len)
qed

lemma watermark_document_result:
  assumes v: "valid_refs doc"
  shows "\<exists>d'. watermark_document wm doc = Some d' \<and> body d' = body doc \<and>
           length (sections d') = length (sections doc) \<and> defined_doc d' \<and>
           (\<forall>n < length (sections doc).
              footer (sections d' ! n) = footer (sections doc ! n) \<and>
              header_of d' n = stamped (sharing doc n) wm (header_of doc n) \<and>
              sharing d' n = sharing doc n) \<and>
           (\<forall>q < length (header_parts doc).
              uses doc (Some q) = 0 \<longrightarrow> header_parts d' ! q = header_parts doc ! q)"
proof (cases "defined_doc doc")
  case True
  from watermark_document_result_defined[OF True, of wm] show ?thesis
    by auto
next
  case False
  with v have ne: "sections doc \<noteq> []" and none: "header_ref (sections doc ! 0) = None"
    by (auto simp: defined_doc_def)
  define d0 where "d0 = snd (add_definition doc)"
  let ?L = "length (header_parts doc)"
  let ?N = "length (sections doc)"
  note f = add_definition_facts[OF v ne none, folded d0_def]
  have res0: "resolved (sections d0) n =
             (case resolved (sections doc) n of None \<Rightarrow> Some ?L | Some r \<Rightarrow> Some r)"
    if "n < ?N" for n
    using f(6) that by blast
  have lt: "r < ?L" if "n < ?N" and "resolved (sections doc) n = Some r" for n r
    using resolved_valid[OF v that] .
  have inj: "(resolved (sections d0) m = resolved (sections d0) n)
             = (resolved (sections doc) m = resolved (sections doc) n)"
    if "m < ?N" and "n < ?N" for m n
    using res0[OF that(1)] res0[OF that(2)] lt[OF that(1)] lt[OF that(2)]
    by (auto split: option.splits)
  have sh: "sharing d0 n = sharing doc n" if n: "n < ?N" for n
  proof -
    have "filter (\<lambda>m. resolved (sections d0) m = resolved (sections d0) n) [0..<?N]
          = filter (\<lambda>m. resolved (sections doc) m = resolved (sections doc) n) [0..<?N]"
      using inj n by (intro filter_cong) auto
    then show ?thesis by (simp add: sharing_def uses_def f(3))
  qed
  have ho: "header_of d0 n = header_of doc n" if n: "n < ?N" for n
    using res0[OF n] lt[OF n]
    by (auto simp: header_of_def f(4) nth_append split: option.splits)
  have un: "uses d0 (Some q) = uses doc (Some q)" if q: "q < ?L" for q
  proof -
    have "filter (\<lambda>m. resolved (sections d0) m = Some q) [0..<?N]
          = filter (\<lambda>m. resolved (sections doc) m = Some q) [0..<?N]"
    proof (intro filter_cong refl)
      fix m assume "m \<in> set [0..<?N]"
      then have m: "m < ?N" by simp
      from res0[OF m] q
      show "(resolved (sections d0) m = Some q) = (resolved (sections doc) m = Some q)"
        by (auto split: option.splits)
    qed
    then show ?thesis by (simp add: uses_def f(3))
  qed
  from watermark_document_result_defined[OF f(1), of wm] obtain d' where
    w: "watermark_document wm d0 = Some d'" and b: "body d' = body d0"
    and s: "sections d' = sections d0" and dd: "defined_doc d'"
    and l: "length (header_parts d') = length (header_parts d0)"
    and h: "\<forall>n < length (sections d0).
              header_of d' n = stamped (sharing d0 n) wm (header_of d0 n) \<and>
              sharing d' n = sharing d0 n"
    and u: "\<forall>q < length (header_parts d0).
              uses d0 (Some q) = 0 \<longrightarrow> header_parts d' ! q = header_parts d0 ! q"
    by blast
  have 1: "watermark_document wm doc = Some d'" using f(7)[of wm] w by simp
  have 2: "body d' = body doc" using b f(2) by simp
  have 3: "length (sections d') = ?N" using s f(3) by simp
  have 4: "\<forall>n < ?N. footer (sections d' ! n) = footer (sections doc ! n) \<and>
              header_of d' n = stamped (sharing doc n) wm (header_of doc n) \<and>
              sharing d' n = sharing doc n"
    using h f(3,5) s sh ho by simp
  have 5: "\<forall>q < ?L. uses doc (Some q) = 0 \<longrightarrow> header_parts d' ! q = header_parts doc ! q"
    using u un by (simp add: f(4) nth_append)
  from 1 2 3 dd 4 5 show ?thesis by blast
qed

lemma defined_doc_valid: "defined_doc d \<Longrightarrow> valid_refs d"
  by (simp add: defined_doc_def)

lemma add_watermark_docx_valid:
  assumes "DOCX_SUPPORT ev" and "files st i = Some (Docx doc)" and "outp \<notin> unwritable st"
    and "watermark_document wm doc = Some doc'"
  shows "add_watermark_docx ev i outp wm st =
           (True, st\<lparr>trace := trace st @ [Call DOCX i outp],
                     files := (files st)(outp \<mapsto> Docx doc')\<rparr>)"
  using assms by (simp add: add_watermark_docx_def write_file_def emit_def Let_def)

text \<open>
  Claim C9 says that the Word handler appends one run to the first header paragraph of
  every section. The loop appends one run per section to the first paragraph of the header
  that the section resolves to; a section whose header is linked to the previous one
  resolves to the same header part, so with two sections sharing a header the one
  paragraph gets two runs in a single application.
\<close>

theorem add_watermark_docx_linked_header_gets_two_runs:
  "\<exists>st'.
     add_watermark_docx full_env ''a.docx'' ''b.docx'' ''DRAFT''
       \<lparr>files = [''a.docx'' \<mapsto>
                   Docx \<lparr>body = [],
                         header_parts =
                           [[\<lparr>runs = [\<lparr>run_text = ''Title'', font_size = None,
                                            font_color = None\<rparr>],
                              alignment = None\<rparr>]],
                         sections = [\<lparr>header_ref = Some 0, footer = []\<rparr>,
                                     \<lparr>header_ref = None, footer = []\<rparr>]\<rparr>],
        dirs = {}, unwritable = {}, trace = []\<rparr> = (True, st') \<and>
     files st' ''b.docx'' =
       Some (Docx \<lparr>body = [],
                   header_parts =
                     [[\<lparr>runs = [\<lparr>run_text = ''Title'', font_size = None, font_color = None\<rparr>,
                                 \<lparr>run_text = ''DRAFT'', font_size = Some 36,
                                   font_color = Some (200, 200, 200)\<rparr>,
                                 \<lparr>run_text = ''DRAFT'', font_size = Some 36,
                                   font_color = Some (200, 200, 200)\<rparr>],
                        alignment = Some 1\<rparr>]],
                   sections = [\<lparr>header_ref = Some 0, footer = []\<rparr>,
                               \<lparr>header_ref = None, footer = []\<rparr>]\<rparr>)"
  by (simp add: add_watermark_docx_def write_file_def emit_def Let_def full_env_def
      watermark_document_def watermark_section_def upt_rec)

text \<open>
  Claim C9 as amended: for every document whose sections refer to header parts that it
  holds, and an output path that can be written, the Word handler returns \<open>True\<close> and
  writes to the output path, and nowhere else, a document with the same body, as many
  sections and the same footers. The header of every section is its header before (the
  empty paragraph of a new header part, when there was none to inherit) with the run
  (the text, 36 points, colour (200, 200, 200)) appended to its first paragraph once for
  every section that shares this header, the paragraph centred, and the later paragraphs
  unchanged. A header part that no section resolves to is unchanged.
\<close>

theorem add_watermark_docx_touches_headers_only:
  assumes "DOCX_SUPPORT ev" and "files st input_path = Some (Docx doc)"
    and "valid_refs doc" and "output_path \<notin> unwritable st"
  shows "\<exists>st' doc'.
     add_watermark_docx ev input_path output_path wm st = (True, st') \<and>
     files st' = (files st)(output_path \<mapsto> Docx doc') \<and>
     body doc' = body doc \<and>
     length (sections doc') = length (sections doc) \<and>
     valid_refs doc' \<and>
     (\<forall>n < length (sections doc).
        footer (sections doc' ! n) = footer (sections doc ! n) \<and>
        1 \<le> sharing doc n \<and>
        header_of doc' n = stamped (sharing doc n) wm (header_of doc n)) \<and>
     (\<forall>q < length (header_parts doc).
        uses doc (Some q) = 0 \<longrightarrow> header_parts doc' ! q = header_parts doc ! q)"
proof -
  from watermark_document_result[OF assms(3), of wm] obtain d' where
    w: "watermark_document wm doc = Some d'" and b: "body d' = body doc"
    and l: "length (sections d') = length (sections doc)" and dd: "defined_doc d'"
    and h: "\<forall>n < length (sections doc).
              footer (sections d' ! n) = footer (sections doc ! n) \<and>
              header_of d' n = stamped (sharing doc n) wm (header_of doc n) \<and>
              sharing d' n = sharing doc n"
    and u: "\<forall>q < length (header_parts doc).
              uses doc (Some q) = 0 \<longrightarrow> header_parts d' ! q = header_parts doc ! q"
    by blast
  let ?st' = "st\<lparr>trace := trace st @ [Call DOCX input_path output_path],
                  files := (files st)(output_path \<mapsto> Docx d')\<rparr>"
  have "add_watermark_docx ev input_path output_path wm st = (True, ?st')"
    by (rule add_watermark_docx_valid[OF assms(1,2,4) w])
  moreover have "files ?st' = (files st)(output_path \<mapsto> Docx d')" by simp
  moreover have "valid_refs d'" using dd by (rule defined_doc_valid)
  moreover have "\<forall>n < length (sections doc).
        footer (sections d' ! n) = footer (sections doc ! n) \<and>
        1 \<le> sharing doc n \<and>
        header_of d' n = stamped (sharing doc n) wm (header_of doc n)"
    using h sharing_pos by simp
  ultimately show ?thesis using b l u by blast
qed

text \<open>Three sections: the second is linked to the first, the third has a header without
  a paragraph; a third header part is used by no section.\<close>

theorem add_watermark_docx_touches_headers_only_witness:
  "\<exists>st' doc'.
     add_watermark_docx full_env ''a.docx'' ''b.docx'' ''DRAFT''
       \<lparr>files = [''a.docx'' \<mapsto>
                   Docx \<lparr>body = [\<lparr>runs = [\<lparr>run_text = ''Hello'', font_size = None,
                                                font_color = None\<rparr>], alignment = None\<rparr>],
                         header_parts =
                           [[\<lparr>runs = [\<lparr>run_text = ''Title'', font_size = None,
                                            font_color = None\<rparr>],
                              alignment = None\<rparr>,
                             \<lparr>runs = [], alignment = Some 2\<rparr>],
                            [],
                            [\<lparr>runs = [], alignment = Some 0\<rparr>]],
                         sections = [\<lparr>header_ref = Some 0, footer = []\<rparr>,
                                     \<lparr>header_ref = None, footer = []\<rparr>,
                                     \<lparr>header_ref = Some 1,
                                       footer = [\<lparr>runs = [], alignment = None\<rparr>]\<rparr>]\<rparr>],
        dirs = {}, unwritable = {}, trace = []\<rparr> = (True, st') \<and>
     files st' ''b.docx'' = Some (Docx doc') \<and>
     body doc' = [\<lparr>runs = [\<lparr>run_text = ''Hello'', font_size = None, font_color = None\<rparr>],
                   alignment = None\<rparr>] \<and>
     footer (sections doc' ! 2) = [\<lparr>runs = [], alignment = None\<rparr>] \<and>
     header_of doc' 0 =
       [\<lparr>runs = [\<lparr>run_text = ''Title'', font_size = None, font_color = None\<rparr>,
                  \<lparr>run_text = ''DRAFT'', font_size = Some 36, font_color = Some (200, 200, 200)\<rparr>,
                  \<lparr>run_text = ''DRAFT'', font_size = Some 36, font_color = Some (200, 200, 200)\<rparr>],
         alignment = Some 1\<rparr>,
        \<lparr>runs = [], alignment = Some 2\<rparr>] \<and>
     header_of doc' 1 = header_of doc' 0 \<and>
     header_of doc' 2 =
       [\<lparr>runs = [\<lparr>run_text = ''DRAFT'', font_size = Some 36,
                    font_color = Some (200, 200, 200)\<rparr>],
         alignment = Some 1\<rparr>] \<and>
     header_parts doc' ! 2 = [\<lparr>runs = [], alignment = Some 0\<rparr>]"
proof -
  let ?doc = "\<lparr>body = [\<lparr>runs = [\<lparr>run_text = ''Hello'', font_size = None,
                                                font_color = None\<rparr>], alignment = None\<rparr>],
                         header_parts =
                           [[\<lparr>runs = [\<lparr>run_text = ''Title'', font_size = None,
                                            font_color = None\<rparr>],
                              alignment = None\<rparr>,
                             \<lparr>runs = [], alignment = Some 2\<rparr>],
                            [],
                            [\<lparr>runs = [], alignment = Some 0\<rparr>]],
                         sections = [\<lparr>header_ref = Some 0, footer = []\<rparr>,
                                     \<lparr>header_ref = None, footer = []\<rparr>,
                                     \<lparr>header_ref = Some 1,
                                       footer = [\<lparr>runs = [], alignment = None\<rparr>]\<rparr>]\<rparr>"
  let ?st = "\<lparr>files = [''a.docx'' \<mapsto> Docx ?doc], dirs = {}, unwritable = {}, trace = []\<rparr>"
  have r: "resolved (sections ?doc) 0 = Some 0" "resolved (sections ?doc) 1 = Some 0"
    "resolved (sections ?doc) 2 = Some 1"
    by (simp_all add: eval_nat_numeral)
  have sh: "sharing ?doc 0 = 2" "sharing ?doc 1 = 2" "sharing ?doc 2 = 1" "uses ?doc (Some 2) = 0"
    using r by (simp_all add: sharing_def uses_def upt_rec)
  have ho: "header_of ?doc 0 = header_parts ?doc ! 0" "header_of ?doc 1 = header_parts ?doc ! 0"
    "header_of ?doc 2 = []"
    using r by (simp_all add: header_of_def)
  have "DOCX_SUPPORT full_env" by (simp add: full_env_def)
  moreover have "files ?st ''a.docx'' = Some (Docx ?doc)" by simp
  moreover have "valid_refs ?doc" by (simp add: valid_refs_def)
  moreover have "''b.docx'' \<notin> unwritable ?st" by simp
  ultimately obtain st' doc' where
    a: "add_watermark_docx full_env ''a.docx'' ''b.docx'' ''DRAFT'' ?st = (True, st')"
    and f: "files st' = (files ?st)(''b.docx'' \<mapsto> Docx doc')"
    and b: "body doc' = body ?doc"
    and h: "\<forall>n < length (sections ?doc).
        footer (sections doc' ! n) = footer (sections ?doc ! n) \<and>
        1 \<le> sharing ?doc n \<and>
        header_of doc' n = stamped (sharing ?doc n) ''DRAFT'' (header_of ?doc n)"
    and u: "\<forall>q < length (header_parts ?doc).
        uses ?doc (Some q) = 0 \<longrightarrow> header_parts doc' ! q = header_parts ?doc ! q"
    using add_watermark_docx_touches_headers_only
      [of full_env ?st "''a.docx''" ?doc "''b.docx''" "''DRAFT''"]
    by blast
  from h have h0: "header_of doc' 0 = stamped (sharing ?doc 0) ''DRAFT'' (header_of ?doc 0)"
    and h1: "header_of doc' 1 = stamped (sharing ?doc 1) ''DRAFT'' (header_of ?doc 1)"
    and h2: "header_of doc' 2 = stamped (sharing ?doc 2) ''DRAFT'' (header_of ?doc 2)"
    and f2: "footer (sections doc' ! 2) = footer (sections ?doc ! 2)"
    by simp_all
  from u sh(4) have u2: "header_parts doc' ! 2 = header_parts ?doc ! 2" by simp
  note g0 = h0[unfolded sh ho] and g1 = h1[unfolded sh ho] and g2 = h2[unfolded sh ho]
  from g0 have k0: "header_of doc' 0 =
       [\<lparr>runs = [\<lparr>run_text = ''Title'', font_size = None, font_color = None\<rparr>,
                  \<lparr>run_text = ''DRAFT'', font_size = Some 36, font_color = Some (200, 200, 200)\<rparr>,
                  \<lparr>run_text = ''DRAFT'', font_size = Some 36, font_color = Some (200, 200, 200)\<rparr>],
         alignment = Some 1\<rparr>,
        \<lparr>runs = [], alignment = Some 2\<rparr>]"
    by (simp add: stamped_def watermark_run_def numeral_2_eq_2)
  from g0 g1 have k1: "header_of doc' 1 = header_of doc' 0" by simp
  from g2 have k2: "header_of doc' 2 =
       [\<lparr>runs = [\<lparr>run_text = ''DRAFT'', font_size = Some 36,
                    font_color = Some (200, 200, 200)\<rparr>],
         alignment = Some 1\<rparr>]"
    by (simp add: stamped_def watermark_run_def)
  from a f b f2 u2 k0 k1 k2 show ?thesis
    by simp
qed

text \<open>
  Claim C7 says that for every document the result of applying the Word handler twice
  differs from the result of applying it once. The loop runs over the sections of the
  document; a document with no section (its body carries no section properties) goes
  through it untouched, so the second output equals the first, and both equal the input.
\<close>

theorem add_watermark_docx_no_sections_idempotent:
  "\<exists>st1 st2.
     add_watermark_docx full_env ''a.docx'' ''b.docx'' ''DRAFT''
       \<lparr>files = [''a.docx'' \<mapsto>
                   Docx \<lparr>body = [\<lparr>runs = [\<lparr>run_text = ''Hello'', font_size = None,
                                                font_color = None\<rparr>], alignment = None\<rparr>],
                         header_parts = [],
                         sections = []\<rparr>],
        dirs = {}, unwritable = {}, trace = []\<rparr> = (True, st1) \<and>
     add_watermark_docx full_env ''b.docx'' ''c.docx'' ''DRAFT'' st1 = (True, st2) \<and>
     files st2 ''c.docx'' = files st1 ''b.docx'' \<and>
     files st2 ''c.docx'' = files st2 ''a.docx''"
  by (simp add: add_watermark_docx_def write_file_def emit_def Let_def full_env_def
      watermark_document_def)

text \<open>
  Claim C7 as amended: for every document with at least one section (whose sections refer
  to header parts that it holds) and every non-empty text, the handler applied to its own
  output gives a document that differs from that output: in the header of every section,
  the first paragraph has the watermark run appended once per section sharing the header
  after the first application, and twice per such section after the second; for a header
  used by one section these are one run and two runs.
\<close>

theorem add_watermark_docx_twice_appends_twice:
  assumes "DOCX_SUPPORT ev" and "files st i = Some (Docx doc)" and "valid_refs doc"
    and "sections doc \<noteq> []" and "wm \<noteq> []"
    and "o1 \<notin> unwritable st" and "o2 \<notin> unwritable st"
  shows "\<exists>st1 st2 d1 d2.
     add_watermark_docx ev i o1 wm st = (True, st1) \<and> files st1 o1 = Some (Docx d1) \<and>
     add_watermark_docx ev o1 o2 wm st1 = (True, st2) \<and> files st2 o2 = Some (Docx d2) \<and>
     d2 \<noteq> d1 \<and>
     (\<forall>n < length (sections doc).
        1 \<le> sharing doc n \<and>
        first_runs (header_of d1 n) =
          first_runs (header_of doc n) @ replicate (sharing doc n) (watermark_run wm) \<and>
        first_runs (header_of d2 n) =
          first_runs (header_of doc n) @ replicate (2 * sharing doc n) (watermark_run wm))"
proof -
  from watermark_document_result[OF assms(3), of wm] obtain d1 where
    w1: "watermark_document wm doc = Some d1"
    and l1: "length (sections d1) = length (sections doc)" and dd1: "defined_doc d1"
    and h1: "\<forall>n < length (sections doc).
              footer (sections d1 ! n) = footer (sections doc ! n) \<and>
              header_of d1 n = stamped (sharing doc n) wm (header_of doc n) \<and>
              sharing d1 n = sharing doc n"
    by blast
  from watermark_document_result[OF defined_doc_valid[OF dd1], of wm] obtain d2 where
    w2: "watermark_document wm d1 = Some d2"
    and h2: "\<forall>n < length (sections d1).
              footer (sections d2 ! n) = footer (sections d1 ! n) \<and>
              header_of d2 n = stamped (sharing d1 n) wm (header_of d1 n) \<and>
              sharing d2 n = sharing d1 n"
    by blast
  let ?st1 = "st\<lparr>trace := trace st @ [Call DOCX i o1], files := (files st)(o1 \<mapsto> Docx d1)\<rparr>"
  let ?st2 = "?st1\<lparr>trace := trace ?st1 @ [Call DOCX o1 o2],
                    files := (files ?st1)(o2 \<mapsto> Docx d2)\<rparr>"
  have a: "add_watermark_docx ev i o1 wm st = (True, ?st1)"
    by (rule add_watermark_docx_valid[OF assms(1,2,6) w1])
  have b: "add_watermark_docx ev o1 o2 wm ?st1 = (True, ?st2)"
    by (rule add_watermark_docx_valid[OF assms(1) _ _ w2]) (simp_all add: assms(7))
  have c: "files ?st1 o1 = Some (Docx d1)" "files ?st2 o2 = Some (Docx d2)" by simp_all
  have e: "1 \<le> sharing doc n \<and>
        first_runs (header_of d1 n) =
          first_runs (header_of doc n) @ replicate (sharing doc n) (watermark_run wm) \<and>
        first_runs (header_of d2 n) =
          first_runs (header_of doc n) @ replicate (2 * sharing doc n) (watermark_run wm)"
    if n: "n < length (sections doc)" for n
  proof -
    from h1 n have x: "header_of d1 n = stamped (sharing doc n) wm (header_of doc n)"
      and y: "sharing d1 n = sharing doc n" by auto
    from h2 n l1 have z: "header_of d2 n = stamped (sharing d1 n) wm (header_of d1 n)" by auto
    have "replicate (sharing doc n) (watermark_run wm) @ replicate (sharing doc n) (watermark_run wm)
          = replicate (2 * sharing doc n) (watermark_run wm)"
      by (simp add: replicate_add[symmetric] mult_2)
    with x y z sharing_pos[OF n] show ?thesis
      by (simp add: first_runs_stamped)
  qed
  have d: "d2 \<noteq> d1"
  proof
    assume eq: "d2 = d1"
    from assms(4) have n: "0 < length (sections doc)" by simp
    from e[OF n] have p: "1 \<le> sharing doc 0"
      and x: "first_runs (header_of d1 0) =
          first_runs (header_of doc 0) @ replicate (sharing doc 0) (watermark_run wm)"
      and y: "first_runs (header_of d2 0) =
          first_runs (header_of doc 0) @ replicate (2 * sharing doc 0) (watermark_run wm)"
      by blast+
    from x y eq have "replicate (sharing doc 0) (watermark_run wm)
                      = replicate (2 * sharing doc 0) (watermark_run wm)"
      by simp
    then have "sharing doc 0 = 2 * sharing doc 0"
      by (simp only: replicate_eq_replicate)
    with p show False by simp
  qed
  from a b c d e show ?thesis by blast
qed

text \<open>A document with one section whose header has a title.\<close>

theorem add_watermark_docx_twice_appends_twice_witness:
  "\<exists>st1 st2 d1 d2.
     add_watermark_docx full_env ''a.docx'' ''b.docx'' ''DRAFT''
       \<lparr>files = [''a.docx'' \<mapsto>
                   Docx \<lparr>body = [],
                         header_parts =
                           [[\<lparr>runs = [\<lparr>run_text = ''Title'', font_size = None,
                                            font_color = None\<rparr>],
                              alignment = None\<rparr>]],
                         sections = [\<lparr>header_ref = Some 0, footer = []\<rparr>]\<rparr>],
        dirs = {}, unwritable = {}, trace = []\<rparr> = (True, st1) \<and>
     files st1 ''b.docx'' = Some (Docx d1) \<and>
     add_watermark_docx full_env ''b.docx'' ''c.docx'' ''DRAFT'' st1 = (True, st2) \<and>
     files st2 ''c.docx'' = Some (Docx d2) \<and>
     d2 \<noteq> d1 \<and>
     first_runs (header_of d1 0) =
       [\<lparr>run_text = ''Title'', font_size = None, font_color = None\<rparr>,
        \<lparr>run_text = ''DRAFT'', font_size = Some 36, font_color = Some (200, 200, 200)\<rparr>] \<and>
     first_runs (header_of d2 0) =
       [\<lparr>run_text = ''Title'', font_size = None, font_color = None\<rparr>,
        \<lparr>run_text = ''DRAFT'', font_size = Some 36, font_color = Some (200, 200, 200)\<rparr>,
        \<lparr>run_text = ''DRAFT'', font_size = Some 36, font_color = Some (200, 200, 200)\<rparr>]"
proof -
  let ?doc = "\<lparr>body = [],
                header_parts =
                  [[\<lparr>runs = [\<lparr>run_text = ''Title'', font_size = None, font_color = None\<rparr>],
                     alignment = None\<rparr>]],
                sections = [\<lparr>header_ref = Some 0, footer = []\<rparr>]\<rparr>"
  let ?st = "\<lparr>files = [''a.docx'' \<mapsto> Docx ?doc], dirs = {}, unwritable = {}, trace = []\<rparr>"
  have sh: "sharing ?doc 0 = 1"
    by (simp add: sharing_def uses_def)
  have ho: "first_runs (header_of ?doc 0) =
              [\<lparr>run_text = ''Title'', font_size = None, font_color = None\<rparr>]"
    by (simp add: header_of_def first_runs_def)
  have "DOCX_SUPPORT full_env" by (simp add: full_env_def)
  moreover have "files ?st ''a.docx'' = Some (Docx ?doc)" by simp
  moreover have "valid_refs ?doc" by (simp add: valid_refs_def)
  moreover have "sections ?doc \<noteq> []" "''DRAFT'' \<noteq> []" by simp_all
  moreover have "''b.docx'' \<notin> unwritable ?st" "''c.docx'' \<notin> unwritable ?st" by simp_all
  ultimately obtain st1 st2 d1 d2 where
    r: "add_watermark_docx full_env ''a.docx'' ''b.docx'' ''DRAFT'' ?st = (True, st1)"
      "files st1 ''b.docx'' = Some (Docx d1)"
      "add_watermark_docx full_env ''b.docx'' ''c.docx'' ''DRAFT'' st1 = (True, st2)"
      "files st2 ''c.docx'' = Some (Docx d2)" "d2 \<noteq> d1"
    and q: "\<forall>n < length (sections ?doc).
        1 \<le> sharing ?doc n \<and>
        first_runs (header_of d1 n) =
          first_runs (header_of ?doc n) @ replicate (sharing ?doc n) (watermark_run ''DRAFT'') \<and>
        first_runs (header_of d2 n) =
          first_runs (header_of ?doc n) @
            replicate (2 * sharing ?doc n) (watermark_run ''DRAFT'')"
    using add_watermark_docx_twice_appends_twice
      [of full_env ?st "''a.docx''" ?doc "''DRAFT''" "''b.docx''" "''c.docx''"]
    by blast
  from q have "first_runs (header_of d1 0) =
          first_runs (header_of ?doc 0) @ replicate (sharing ?doc 0) (watermark_run ''DRAFT'')"
    and "first_runs (header_of d2 0) =
          first_runs (header_of ?doc 0) @
            replicate (2 * sharing ?doc 0) (watermark_run ''DRAFT'')"
    by simp_all
  then have "first_runs (header_of d1 0) =
       [\<lparr>run_text = ''Title'', font_size = None, font_color = None\<rparr>,
        \<lparr>run_text = ''DRAFT'', font_size = Some 36, font_color = Some (200, 200, 200)\<rparr>]"
    and "first_runs (header_of d2 0) =
       [\<lparr>run_text = ''Title'', font_size = None, font_color = None\<rparr>,
        \<lparr>run_text = ''DRAFT'', font_size = Some 36, font_color = Some (200, 200, 200)\<rparr>,
        \<lparr>run_text = ''DRAFT'', font_size = Some 36, font_color = Some (200, 200, 200)\<rparr>]"
    by (simp_all add: sh ho watermark_run_def numeral_2_eq_2)
  with r show ?thesis by blast
qed

end
